theory Spec2Isabelle
  imports Main "HOL-Library.Sublist"
begin

section \<open>Python strings and POSIX paths\<close>

text \<open>
  A Python \<open>str\<close> is modelled as a \<open>string\<close> holding its UTF-8 bytes. The messages of
  \<open>lxpkg_gui.py\<close> use the typographic apostrophe U+2019, which is three bytes here.
  \<open>q in s\<close> on strings is \<open>sublist q s\<close>, \<open>s.endswith(t)\<close> is \<open>suffix t s\<close>.
\<close>

definition rsquo :: string where
  "rsquo = [CHR 0xE2, CHR 0x80, CHR 0x99]"

text \<open>\<open>str.lower()\<close>, on the ASCII letters; every other byte is kept.\<close>

definition lower_char :: "char \<Rightarrow> char" where
  "lower_char c =
     (case map_of (zip ''ABCDEFGHIJKLMNOPQRSTUVWXYZ'' ''abcdefghijklmnopqrstuvwxyz'') c of
        Some d \<Rightarrow> d
      | None \<Rightarrow> c)"

definition lower :: "string \<Rightarrow> string" where
  "lower s = map lower_char s"

text \<open>\<open>s.rstrip('/')\<close>.\<close>

definition rstrip_slash :: "string \<Rightarrow> string" where
  "rstrip_slash s = rev (dropWhile (\<lambda>c. c = CHR ''/'') (rev s))"

text \<open>
  \<open>posixpath.basename\<close>: everything after the last slash.
  \<^verbatim>\<open>i = p.rfind('/') + 1; return p[i:]\<close>
\<close>

definition basename :: "string \<Rightarrow> string" where
  "basename p = rev (takeWhile (\<lambda>c. c \<noteq> CHR ''/'') (rev p))"

text \<open>
  \<open>posixpath.dirname\<close>:
  \<^verbatim>\<open>i = p.rfind('/') + 1; head = p[:i]
  if head and head != '/'*len(head): head = head.rstrip('/')
  return head\<close>
\<close>

definition dirname :: "string \<Rightarrow> string" where
  "dirname p =
     (let head = rev (dropWhile (\<lambda>c. c \<noteq> CHR ''/'') (rev p))
      in if head \<noteq> [] \<and> head \<noteq> replicate (length head) CHR ''/''
         then rstrip_slash head else head)"

text \<open>
  \<open>posixpath.join(a, b)\<close> with one component:
  \<^verbatim>\<open>if b.startswith('/'): path = b
  elif not path or path.endswith('/'): path += b
  else: path += '/' + b\<close>
\<close>

definition join :: "string \<Rightarrow> string \<Rightarrow> string" where
  "join a b =
     (if prefix ''/'' b then b
      else if a = [] \<or> suffix ''/'' a then a @ b
      else a @ ''/'' @ b)"



section \<open>The descriptor, the operating system and the events of a job\<close>

text \<open>
  The parsed descriptor, as far as the pipeline reads it. A table that may be absent is
  an \<open>option\<close>, a key that may be absent likewise; the \<open>build\<close> table is the dictionary from
  stage key to command list. The model covers descriptors whose present entries have
  the types of the descriptor format: \<open>package\<close> and \<open>build\<close> are tables, \<open>src\<close> and
  every stage entry are lists of strings.
\<close>

record package_table =
  pkg_name :: "string option"
  pkg_src :: "string list option"

record package_info =
  info_package :: "package_table option"
  info_build :: "(string \<rightharpoonup> string list) option"

text \<open>
  What \<open>subprocess.run\<close> returns: the exit status and \<open>result.stderr.decode()\<close>,
  which is the text (\<open>Inr\<close>) or raises on bytes that are not UTF-8 (\<open>Inl\<close>, the
  exception's text).
\<close>

record completed =
  returncode :: int
  stderr_decode :: "string + string"

text \<open>
  An exception is modelled by the text \<open>str(e)\<close> gives, the only thing the program reads
  from it. The events of a run are the three signals of \<open>InstallationThread\<close>, the
  direct \<open>status_label.setText\<close> calls, and every call that reaches outside the
  program, in the order they happen. A \<open>Run\<close> event carries what the call came back
  with.
\<close>

datatype event =
    Progress int
  | Message string
  | Finished bool string string
  | SetText string
  | Makedirs string
  | Urlretrieve string string
  | Extractall string string
  | Run string string "string + completed"
  | Rmtree string
  | Remove string

text \<open>
  The operating system is a parameter: a state \<open>'w\<close> and the library calls the program
  makes on it. A call that can raise returns \<open>Inl\<close> of the exception's text.
  \<open>toml_load\<close> stands for \<open>open(path)\<close> followed by \<open>toml.load\<close>; \<open>walk w top\<close> is the
  list of \<open>(root, files)\<close> that \<open>os.walk(top)\<close> yields.
\<close>

record 'w os =
  walk :: "'w \<Rightarrow> string \<Rightarrow> (string \<times> string list) list"
  toml_load :: "'w \<Rightarrow> string \<Rightarrow> string + package_info"
  path_exists :: "'w \<Rightarrow> string \<Rightarrow> bool"
  makedirs :: "'w \<Rightarrow> string \<Rightarrow> (string + unit) \<times> 'w"
  urlretrieve :: "'w \<Rightarrow> string \<Rightarrow> string \<Rightarrow> (string + unit) \<times> 'w"
  extractall :: "'w \<Rightarrow> string \<Rightarrow> string \<Rightarrow> (string + unit) \<times> 'w"
  listdir :: "'w \<Rightarrow> string \<Rightarrow> string + string list"
  isdir :: "'w \<Rightarrow> string \<Rightarrow> bool"
  subprocess_run :: "'w \<Rightarrow> string \<Rightarrow> string \<Rightarrow> (string + completed) \<times> 'w"
  rmtree :: "'w \<Rightarrow> string \<Rightarrow> (string + unit) \<times> 'w"
  os_remove :: "'w \<Rightarrow> string \<Rightarrow> (string + unit) \<times> 'w"

definition SOURCES_BASE_DIR :: string where
  "SOURCES_BASE_DIR = ''/home/user/sources''"

definition BUILD_DIR :: string where
  "BUILD_DIR = ''/home/user/sources/build''"

subsection \<open>Sequencing with exceptions\<close>

text \<open>
  A computation takes the state of the system and returns its result or the exception
  it raised, the events it produced, and the new state.
\<close>

type_synonym ('w, 'a) io = "'w \<Rightarrow> (string + 'a) \<times> event list \<times> 'w"

definition io_return :: "'a \<Rightarrow> ('w, 'a) io" where
  "io_return x w = (Inr x, [], w)"

definition io_raise :: "string \<Rightarrow> ('w, 'a) io" where
  "io_raise e w = (Inl e, [], w)"

definition io_emit :: "event \<Rightarrow> ('w, unit) io" where
  "io_emit ev w = (Inr (), [ev], w)"

definition io_bind :: "('w, 'a) io \<Rightarrow> ('a \<Rightarrow> ('w, 'b) io) \<Rightarrow> ('w, 'b) io" where
  "io_bind m f w =
     (case m w of
        (Inl e, evs, w') \<Rightarrow> (Inl e, evs, w')
      | (Inr x, evs, w') \<Rightarrow> (case f x w' of (r, evs', w'') \<Rightarrow> (r, evs @ evs', w'')))"

text \<open>\<^verbatim>\<open>try: ... except Exception as e: raise Exception(f"<pre>{e}")\<close>\<close>

definition io_reraise :: "string \<Rightarrow> ('w, 'a) io \<Rightarrow> ('w, 'a) io" where
  "io_reraise pre m w =
     (case m w of
        (Inl e, evs, w') \<Rightarrow> (Inl (pre @ e), evs, w')
      | (Inr x, evs, w') \<Rightarrow> (Inr x, evs, w'))"

text \<open>A library call that changes the system, logged as \<open>ev\<close>.\<close>

definition os_call :: "('w \<Rightarrow> (string + 'a) \<times> 'w) \<Rightarrow> event \<Rightarrow> ('w, 'a) io" where
  "os_call f ev w = (case f w of (r, w') \<Rightarrow> (r, [ev], w'))"

text \<open>\<open>d[key]\<close> on a dictionary: \<open>str(KeyError(key))\<close> is the key in quotes.\<close>

definition getitem :: "'a option \<Rightarrow> string \<Rightarrow> ('w, 'a) io" where
  "getitem entry key =
     (case entry of None \<Rightarrow> io_raise ([CHR 0x27] @ key @ [CHR 0x27]) | Some v \<Rightarrow> io_return v)"

text \<open>\<open>xs[0]\<close> on a list.\<close>

definition getitem0 :: "'a list \<Rightarrow> ('w, 'a) io" where
  "getitem0 xs = (case xs of [] \<Rightarrow> io_raise ''list index out of range'' | x # _ \<Rightarrow> io_return x)"

section \<open>PackageManager: the pipeline's operations\<close>

text \<open>
  \<open>find_package_toml\<close>: the first file of the walk that ends in \<open>.toml\<close> and whose
  lower-cased name contains the lower-cased package name.
\<close>

definition find_package_toml :: "'w os \<Rightarrow> string \<Rightarrow> ('w, string) io" where
  "find_package_toml os package_name w =
     io_reraise ''Search for the package failed: ''
       (case [join root file. (root, files) \<leftarrow> walk os w SOURCES_BASE_DIR, file \<leftarrow> files,
                suffix ''.toml'' file \<and> sublist (lower package_name) (lower file)] of
          [] \<Rightarrow> io_raise (''Couldn'' @ rsquo @ ''t find the package '' @ [CHR 0x27] @ package_name @ [CHR 0x27])
        | path # _ \<Rightarrow> io_return path) w"

definition load_package_info :: "'w os \<Rightarrow> string \<Rightarrow> ('w, package_info) io" where
  "load_package_info os toml_path w =
     io_reraise (''Oops, couldn'' @ rsquo @ ''t load the TOML file: '')
       (case toml_load os w toml_path of Inl e \<Rightarrow> io_raise e | Inr info \<Rightarrow> io_return info) w"

definition fetch_source :: "'w os \<Rightarrow> string \<Rightarrow> string \<Rightarrow> ('w, string) io" where
  "fetch_source os url dest_dir w =
     io_reraise (''Uh-oh, couldn'' @ rsquo @ ''t download the source: '')
       (let filename = join dest_dir (basename url) in
        if \<not> path_exists os w filename
        then io_bind (os_call (\<lambda>w. urlretrieve os w url filename) (Urlretrieve url filename))
               (\<lambda>_. io_bind (io_emit (SetText (''Got it! Downloaded '' @ basename url)))
               (\<lambda>_. io_return filename))
        else io_return filename) w"

definition extract_tarball :: "'w os \<Rightarrow> string \<Rightarrow> string \<Rightarrow> ('w, string) io" where
  "extract_tarball os tarball dest_dir =
     io_reraise (''Yikes, couldn'' @ rsquo @ ''t extract the tarball: '')
       (io_bind (os_call (\<lambda>w. extractall os w tarball dest_dir) (Extractall tarball dest_dir))
          (\<lambda>_ w. case listdir os w dest_dir of
                    Inl e \<Rightarrow> io_raise e w
                  | Inr names \<Rightarrow>
                     (case [join dest_dir d. d \<leftarrow> names, isdir os w (join dest_dir d)] of
                        [] \<Rightarrow> io_return dest_dir w
                      | first # _ \<Rightarrow> io_return first w)))"

text \<open>
  The loop of \<open>build_package\<close>, inside its \<open>try\<close>: each command is announced, run in
  \<open>src_dir\<close>, and a non-zero exit status raises with the decoded standard error.
\<close>

fun build_loop :: "'w os \<Rightarrow> string \<Rightarrow> string \<Rightarrow> string list \<Rightarrow> ('w, unit) io" where
  "build_loop os src_dir stage [] w = (Inr (), [], w)"
| "build_loop os src_dir stage (cmd # cmds) w =
     (case subprocess_run os w cmd src_dir of
        (outcome, w1) \<Rightarrow>
          (let evs = [SetText (stage @ '': '' @ cmd), Run cmd src_dir outcome] in
           case outcome of
             Inl e \<Rightarrow> (Inl e, evs, w1)
           | Inr result \<Rightarrow>
               if returncode result \<noteq> 0
               then (case stderr_decode result of
                       Inl e \<Rightarrow> (Inl e, evs, w1)
                     | Inr error_msg \<Rightarrow>
                         (Inl (stage @ '' didn'' @ rsquo @ ''t work: '' @ error_msg), evs, w1))
               else (case build_loop os src_dir stage cmds w1 of
                       (r, evs', w2) \<Rightarrow> (r, evs @ SetText (stage @ '' done'') # evs', w2))))"

definition build_package :: "'w os \<Rightarrow> string \<Rightarrow> string list \<Rightarrow> string \<Rightarrow> ('w, unit) io" where
  "build_package os src_dir commands stage =
     io_reraise ''Oh no, the build failed: '' (build_loop os src_dir stage commands)"

section \<open>InstallationThread.run\<close>

text \<open>
  The body of the \<open>try\<close> up to the end of the build steps (lines 38 to 69), block by
  block as the source is commented; \<open>stages\<close> puts the blocks in sequence and returns
  the extracted source directory and the downloaded file, which the cleanup needs.
  First the build steps, lines 56 to 69.
\<close>

definition install_cmd :: "string list \<Rightarrow> string list" where
  "install_cmd cmds = map (\<lambda>cmd. if sublist ''sudo'' cmd then ''pkexec '' @ cmd else cmd) cmds"

definition build_steps :: "'w os \<Rightarrow> string \<Rightarrow> (string \<rightharpoonup> string list) \<Rightarrow> ('w, unit) io" where
  "build_steps os src_dir build =
     io_bind (case build ''configure'' of
                None \<Rightarrow> io_return ()
              | Some cmds \<Rightarrow>
                  io_bind (io_emit (Message ''Configuring...''))
                    (\<lambda>_. io_bind (build_package os src_dir cmds ''Configuring'')
                    (\<lambda>_. io_emit (Progress 60))))
    (\<lambda>_. io_bind (case build ''compile'' of
                None \<Rightarrow> io_return ()
              | Some cmds \<Rightarrow>
                  io_bind (io_emit (Message ''Compiling...''))
                    (\<lambda>_. io_bind (build_package os src_dir cmds ''Compiling'')
                    (\<lambda>_. io_emit (Progress 80))))
    (\<lambda>_. case build ''install'' of
                None \<Rightarrow> io_return ()
              | Some cmds \<Rightarrow>
                  io_bind (io_emit (Message ''Installing...''))
                    (\<lambda>_. io_bind (build_package os src_dir (install_cmd cmds) ''Installing'')
                    (\<lambda>_. io_emit (Progress 90)))))"

text \<open>Lines 38 to 41: the descriptor is found and parsed and its two tables looked up.\<close>

definition load_descriptor ::
  "'w os \<Rightarrow> string \<Rightarrow> ('w, string \<times> package_table \<times> (string \<rightharpoonup> string list)) io" where
  "load_descriptor os package_name =
     io_bind (find_package_toml os package_name) (\<lambda>toml_path.
     io_bind (load_package_info os toml_path) (\<lambda>package_info.
     io_bind (getitem (info_package package_info) ''package'') (\<lambda>package.
     io_bind (getitem (info_build package_info) ''build'') (\<lambda>build.
     io_return (toml_path, package, build)))))"

text \<open>Lines 44 to 47: the loading is announced and the build directory made.\<close>

definition prepare :: "'w os \<Rightarrow> string \<Rightarrow> ('w, unit) io" where
  "prepare os toml_path =
     io_bind (io_emit (Message (''Loaded: '' @ basename toml_path))) (\<lambda>_.
     io_bind (os_call (\<lambda>w. makedirs os w BUILD_DIR) (Makedirs BUILD_DIR)) (\<lambda>_.
     io_emit (Progress 10)))"

text \<open>
  Lines 49 to 53: the first source is downloaded beside the descriptor and unpacked into
  the build directory. The result is the downloaded file and the source directory.
\<close>

definition fetch_and_extract :: "'w os \<Rightarrow> string \<Rightarrow> package_table \<Rightarrow> ('w, string \<times> string) io" where
  "fetch_and_extract os toml_path package =
     io_bind (getitem (pkg_src package) ''src'') (\<lambda>src.
     io_bind (getitem0 src) (\<lambda>url.
     io_bind (fetch_source os url (dirname toml_path)) (\<lambda>tarball.
     io_bind (io_emit (Progress 30)) (\<lambda>_.
     io_bind (extract_tarball os tarball BUILD_DIR) (\<lambda>src_dir.
     io_bind (io_emit (Progress 50)) (\<lambda>_.
     io_return (tarball, src_dir)))))))"

definition stages :: "'w os \<Rightarrow> string \<Rightarrow> ('w, string \<times> string) io" where
  "stages os package_name =
     io_bind (load_descriptor os package_name) (\<lambda>(toml_path, package, build).
     io_bind (prepare os toml_path) (\<lambda>_.
     io_bind (fetch_and_extract os toml_path package) (\<lambda>(tarball, src_dir).
     io_bind (build_steps os src_dir build) (\<lambda>_.
     io_return (src_dir, tarball)))))"

text \<open>Lines 72 to 74: the temporary files are removed and the last milestone reported.\<close>

definition cleanup :: "'w os \<Rightarrow> string \<Rightarrow> string \<Rightarrow> ('w, unit) io" where
  "cleanup os src_dir tarball =
     io_bind (os_call (\<lambda>w. rmtree os w src_dir) (Rmtree src_dir)) (\<lambda>_.
     io_bind (os_call (\<lambda>w. os_remove os w tarball) (Remove tarball)) (\<lambda>_.
     io_emit (Progress 100)))"

text \<open>
  \<open>run\<close>: whatever the \<open>try\<close> raises is caught and reported by the one \<open>finished\<close>
  signal. The result is the events of the job, in order, and the state it leaves.
\<close>

definition run :: "'w os \<Rightarrow> string \<Rightarrow> 'w \<Rightarrow> event list \<times> 'w" where
  "run os package_name w =
     (case io_bind (stages os package_name) (\<lambda>(src_dir, tarball). cleanup os src_dir tarball) w of
        (Inr _, evs, w') \<Rightarrow>
          (evs @ [Finished True ([CHR 0x27] @ package_name @ [CHR 0x27] @ '' installed'') []], w')
      | (Inl e, evs, w') \<Rightarrow> (evs @ [Finished False (''Failed: '' @ e) e], w'))"

section \<open>PackageManager: the window's state\<close>

text \<open>
  The fields of the window that \<open>start_installation\<close> reads and writes. A thread is
  the package it installs and whether it is running; a message box is its title and
  text.
\<close>

record installation_thread =
  thread_package_name :: string
  isRunning :: bool

record package_manager =
  selected_package :: "string option"
  install_thread :: "installation_thread option"
  progress_bar_visible :: bool
  progress_bar_value :: int

definition start_installation :: "package_manager \<Rightarrow> (string \<times> string) option \<times> package_manager" where
  "start_installation self =
     (if selected_package self = None \<or> selected_package self = Some []
      then (Some (''Error'', ''Hey, pick a package first!''), self)
      else if (case install_thread self of None \<Rightarrow> False | Some t \<Rightarrow> isRunning t)
      then (Some (''Error'', ''Hold on, an installation'' @ rsquo @ ''s already running!''), self)
      else (None, self\<lparr>progress_bar_visible := True, progress_bar_value := 0,
                       install_thread :=
                         Some \<lparr>thread_package_name = the (selected_package self), isRunning = True\<rparr>\<rparr>))"

section \<open>PackageManager: listing the packages\<close>




section \<open>A system to run the pipeline on\<close>

text \<open>
  A small system for evaluating the pipeline: its state is the list of paths that exist.
  One descriptor \<open>pkg.toml\<close> with content \<open>info\<close> lies in \<open>/home/user/sources/pkg\<close>; a
  download always succeeds and creates the file; the archive unpacks into one directory
  \<open>pkg-1.0\<close>; the shell is \<open>sh\<close>.
\<close>

definition demo_os :: "package_info \<Rightarrow> (string \<Rightarrow> string + completed) \<Rightarrow> string list os" where
  "demo_os info sh =
     \<lparr>walk = (\<lambda>w top. [(''/home/user/sources/pkg'', [''pkg.toml''])]),
      toml_load = (\<lambda>w path. if path = ''/home/user/sources/pkg/pkg.toml'' then Inr info
                             else Inl ''No such file''),
      path_exists = (\<lambda>w path. path \<in> set w),
      makedirs = (\<lambda>w path. (Inr (), path # w)),
      urlretrieve = (\<lambda>w url filename. (Inr (), filename # w)),
      extractall = (\<lambda>w tarball dest. (Inr (), (dest @ ''/pkg-1.0'') # w)),
      listdir = (\<lambda>w path. Inr [''pkg-1.0'']),
      isdir = (\<lambda>w path. True),
      subprocess_run = (\<lambda>w cmd cwd. (sh cmd, w)),
      rmtree = (\<lambda>w path. (Inr (), removeAll path w)),
      os_remove = (\<lambda>w path. (Inr (), removeAll path w))\<rparr>"

definition sh_ok :: "string \<Rightarrow> string + completed" where
  "sh_ok cmd = Inr \<lparr>returncode = 0, stderr_decode = Inr []\<rparr>"

text \<open>The descriptor of the end-to-end scenario.\<close>

definition pkg_info :: package_info where
  "pkg_info =
     \<lparr>info_package = Some \<lparr>pkg_name = Some ''pkg'',
                       pkg_src = Some [''https://example.org/pkg-1.0.tar.gz'']\<rparr>,
      info_build = Some [''compile'' \<mapsto> [''make''], ''install'' \<mapsto> [''make install'']]\<rparr>"

section \<open>Reading the events of a job\<close>

text \<open>The values sent through the \<open>progress\<close> signal, in order.\<close>

fun progress_of :: "event \<Rightarrow> int list" where
  "progress_of (Progress n) = [n]"
| "progress_of _ = []"

definition progress_values :: "event list \<Rightarrow> int list" where
  "progress_values evs = concat (map progress_of evs)"

text \<open>The command texts handed to the shell, in order.\<close>

fun command_of :: "event \<Rightarrow> string list" where
  "command_of (Run cmd cwd outcome) = [cmd]"
| "command_of _ = []"

definition commands_run :: "event list \<Rightarrow> string list" where
  "commands_run evs = concat (map command_of evs)"

text \<open>
  A shell call failed when it could not be made at all or when the command's exit
  status is not zero.
\<close>

fun failed :: "string + completed \<Rightarrow> bool" where
  "failed (Inl e) = True"
| "failed (Inr result) = (returncode result \<noteq> 0)"

fun failed_run :: "event \<Rightarrow> bool" where
  "failed_run (Run cmd cwd outcome) = failed outcome"
| "failed_run _ = False"

text \<open>
  The events a build step in directory \<open>d\<close> can produce: messages, status texts,
  progress values, and shell calls made in \<open>d\<close>.
\<close>

fun build_event :: "string \<Rightarrow> event \<Rightarrow> bool" where
  "build_event d (Message s) = True"
| "build_event d (SetText s) = True"
| "build_event d (Progress n) = True"
| "build_event d (Run cmd cwd outcome) = (cwd = d)"
| "build_event d _ = False"

text \<open>The removals of files and directories that the program asks for.\<close>

fun is_deletion :: "event \<Rightarrow> bool" where
  "is_deletion (Rmtree path) = True"
| "is_deletion (Remove path) = True"
| "is_deletion _ = False"

definition deletions :: "event list \<Rightarrow> event list" where
  "deletions evs = filter is_deletion evs"

text \<open>
  The milestones of a job whose descriptor has the build table \<open>build\<close>: the three of
  the build steps are there for the declared steps only.
\<close>

definition stage_milestones :: "(string \<rightharpoonup> string list) \<Rightarrow> int list" where
  "stage_milestones build =
     (if build ''configure'' = None then [] else [60])
     @ (if build ''compile'' = None then [] else [80])
     @ (if build ''install'' = None then [] else [90])"

definition milestones :: "(string \<rightharpoonup> string list) \<Rightarrow> int list" where
  "milestones build = [10, 30, 50] @ stage_milestones build @ [100]"

text \<open>The commands a job runs when nothing fails, as the shell receives them.\<close>

definition declared_commands :: "(string \<rightharpoonup> string list) \<Rightarrow> string list" where
  "declared_commands build =
     (case build ''configure'' of None \<Rightarrow> [] | Some cmds \<Rightarrow> cmds)
     @ (case build ''compile'' of None \<Rightarrow> [] | Some cmds \<Rightarrow> cmds)
     @ (case build ''install'' of None \<Rightarrow> [] | Some cmds \<Rightarrow> install_cmd cmds)"

text \<open>The text \<open>build_package\<close> raises with when a command of \<open>stage\<close> exits non-zero.\<close>

definition build_error :: "string \<Rightarrow> string \<Rightarrow> string" where
  "build_error stage error_msg =
     ''Oh no, the build failed: '' @ stage @ '' didn'' @ rsquo @ ''t work: '' @ error_msg"

section \<open>The listing as the specification words it\<close>


section \<open>Example inputs\<close>

text \<open>A window whose installation thread is running.\<close>

definition busy_window :: package_manager where
  "busy_window =
     \<lparr>selected_package = Some ''vim'',
      install_thread = Some \<lparr>thread_package_name = ''pkg'', isRunning = True\<rparr>,
      progress_bar_visible = True, progress_bar_value = 30\<rparr>"

text \<open>A shell in which \<open>make\<close> exits with status 1 and \<open>boom\<close> on standard error.\<close>

definition sh_boom :: "string \<Rightarrow> string + completed" where
  "sh_boom cmd =
     (if cmd = ''make'' then Inr \<lparr>returncode = 1, stderr_decode = Inr ''boom''\<rparr> else sh_ok cmd)"

text \<open>A shell that cannot be started: the working directory is missing.\<close>

definition sh_missing :: "string \<Rightarrow> string + completed" where
  "sh_missing cmd = Inl ''[Errno 2] No such file or directory''"

text \<open>A descriptor whose \<open>package\<close> table has neither \<open>name\<close> nor \<open>src\<close>.\<close>

definition nameless_info :: package_info where
  "nameless_info =
     \<lparr>info_package = Some \<lparr>pkg_name = None, pkg_src = None\<rparr>, info_build = Some Map.empty\<rparr>"

text \<open>A descriptor whose configure step asks for \<open>sudo\<close>.\<close>

definition sudo_info :: package_info where
  "sudo_info =
     \<lparr>info_package = Some \<lparr>pkg_name = Some ''pkg'',
                            pkg_src = Some [''https://example.org/pkg-1.0.tar.gz'']\<rparr>,
      info_build = Some [''configure'' \<mapsto> [''sudo ./configure''],
                         ''install'' \<mapsto> [''sudo make install'', ''ldconfig'']]\<rparr>"

text \<open>A descriptor with no \<open>build\<close> table.\<close>

definition unbuilt_info :: package_info where
  "unbuilt_info =
     \<lparr>info_package = Some \<lparr>pkg_name = Some ''pkg'',
                            pkg_src = Some [''https://example.org/pkg-1.0.tar.gz'']\<rparr>,
      info_build = None\<rparr>"

section \<open>Sequencing: how results and events compose\<close>

lemma io_bindE:
  assumes "io_bind m f w = (r, evs, w')"
  obtains (raised) e where "m w = (Inl e, evs, w')" and "r = Inl e"
        | (returned) x e1 w1 e2 where "m w = (Inr x, e1, w1)" and "f x w1 = (r, e2, w')"
            and "evs = e1 @ e2"
  using assms by (auto simp: io_bind_def split: prod.splits sum.splits)

lemma io_return_eq [simp]: "io_return x w = (r, evs, w') \<longleftrightarrow> r = Inr x \<and> evs = [] \<and> w' = w"
  by (auto simp: io_return_def)

lemma io_raise_eq [simp]: "io_raise e w = (r, evs, w') \<longleftrightarrow> r = Inl e \<and> evs = [] \<and> w' = w"
  by (auto simp: io_raise_def)

lemma io_emit_eq [simp]: "io_emit ev w = (r, evs, w') \<longleftrightarrow> r = Inr () \<and> evs = [ev] \<and> w' = w"
  by (auto simp: io_emit_def)

lemma os_call_eq [simp]: "os_call f ev w = (r, evs, w') \<longleftrightarrow> f w = (r, w') \<and> evs = [ev]"
  by (auto simp: os_call_def split: prod.splits)

lemma getitem_eq [simp]:
  "getitem entry key w = (r, evs, w') \<longleftrightarrow>
     evs = [] \<and> w' = w
     \<and> r = (case entry of None \<Rightarrow> Inl ([CHR 0x27] @ key @ [CHR 0x27]) | Some v \<Rightarrow> Inr v)"
  by (auto simp: getitem_def split: option.splits)

lemma getitem0_eq [simp]:
  "getitem0 xs w = (r, evs, w') \<longleftrightarrow>
     evs = [] \<and> w' = w
     \<and> r = (case xs of [] \<Rightarrow> Inl ''list index out of range'' | x # _ \<Rightarrow> Inr x)"
  by (auto simp: getitem0_def split: list.splits)

lemma io_reraiseE:
  assumes "io_reraise pre m w = (r, evs, w')"
  obtains (raised) e where "m w = (Inl e, evs, w')" and "r = Inl (pre @ e)"
        | (returned) x where "m w = (Inr x, evs, w')" and "r = Inr x"
  using assms by (auto simp: io_reraise_def split: prod.splits sum.splits)

lemma progress_values_simps [simp]:
  "progress_values [] = []"
  "progress_values (ev # evs) = progress_of ev @ progress_values evs"
  "progress_values (xs @ ys) = progress_values xs @ progress_values ys"
  by (simp_all add: progress_values_def)

lemma commands_run_simps [simp]:
  "commands_run [] = []"
  "commands_run (ev # evs) = command_of ev @ commands_run evs"
  "commands_run (xs @ ys) = commands_run xs @ commands_run ys"
  by (simp_all add: commands_run_def)

lemma deletions_simps [simp]:
  "deletions [] = []"
  "deletions (ev # evs) = (if is_deletion ev then ev # deletions evs else deletions evs)"
  "deletions (xs @ ys) = deletions xs @ deletions ys"
  by (simp_all add: deletions_def)

section \<open>Requesting an installation while one is running\<close>

text \<open>
  C5. Whenever the window's installation thread is running, \<open>start_installation\<close>
  answers at once with an error box and starts nothing: the window, with its thread,
  its progress bar and its selection, is exactly as it was.
\<close>

theorem start_installation_rejects_second_job:
  "install_thread self = Some t \<Longrightarrow> isRunning t \<Longrightarrow>
     (\<exists>text. fst (start_installation self) = Some (''Error'', text))
     \<and> snd (start_installation self) = self"
  by (simp add: start_installation_def)

theorem start_installation_rejects_second_job_witness:
  "install_thread busy_window = Some \<lparr>thread_package_name = ''pkg'', isRunning = True\<rparr>
   \<and> isRunning \<lparr>thread_package_name = ''pkg'', isRunning = True\<rparr>
   \<and> fst (start_installation busy_window)
       = Some (''Error'', ''Hold on, an installation'' @ rsquo @ ''s already running!'')
   \<and> snd (start_installation busy_window) = busy_window"
  using start_installation_rejects_second_job
    [of busy_window "\<lparr>thread_package_name = ''pkg'', isRunning = True\<rparr>"]
  by (simp add: busy_window_def start_installation_def)

section \<open>Fetching the source\<close>

text \<open>
  C4. On a system where a completed download leaves the file in place: if the file
  named after the URL's base name is already in the destination, \<open>fetch_source\<close>
  returns its path with no event at all (no download, no status text) and leaves the
  system as it was; a second call right after a call that returned gives the same path
  and downloads nothing; and the status text is set exactly when a download was made and
  completed.
\<close>

theorem fetch_source_idempotent:
  assumes kept: "\<forall>w f w'. urlretrieve os w url f = (Inr (), w') \<longrightarrow> path_exists os w' f"
  shows "(path_exists os w (join dest_dir (basename url)) \<longrightarrow>
            fetch_source os url dest_dir w = (Inr (join dest_dir (basename url)), [], w))
       \<and> (\<forall>p evs w1. fetch_source os url dest_dir w = (Inr p, evs, w1) \<longrightarrow>
            fetch_source os url dest_dir w1 = (Inr p, [], w1))
       \<and> (\<forall>r evs w1. fetch_source os url dest_dir w = (r, evs, w1) \<longrightarrow>
            (SetText (''Got it! Downloaded '' @ basename url) \<in> set evs
               \<longleftrightarrow> \<not> path_exists os w (join dest_dir (basename url))
                   \<and> r = Inr (join dest_dir (basename url)))
          \<and> (Urlretrieve url (join dest_dir (basename url)) \<in> set evs
               \<longleftrightarrow> \<not> path_exists os w (join dest_dir (basename url)))
          \<and> set evs \<subseteq> {Urlretrieve url (join dest_dir (basename url)),
                         SetText (''Got it! Downloaded '' @ basename url)})"
  using kept
  by (auto simp: fetch_source_def io_bind_def io_reraise_def io_return_def io_emit_def
        os_call_def Let_def split: prod.splits sum.splits if_splits)

theorem fetch_source_idempotent_witness:
  "fetch_source (demo_os pkg_info sh_ok) ''https://example.org/pkg-1.0.tar.gz''
        ''/home/user/sources/pkg'' []
      = (Inr ''/home/user/sources/pkg/pkg-1.0.tar.gz'',
         [Urlretrieve ''https://example.org/pkg-1.0.tar.gz''
            ''/home/user/sources/pkg/pkg-1.0.tar.gz'',
          SetText ''Got it! Downloaded pkg-1.0.tar.gz''],
         [''/home/user/sources/pkg/pkg-1.0.tar.gz''])
   \<and> fetch_source (demo_os pkg_info sh_ok) ''https://example.org/pkg-1.0.tar.gz''
        ''/home/user/sources/pkg'' [''/home/user/sources/pkg/pkg-1.0.tar.gz'']
      = (Inr ''/home/user/sources/pkg/pkg-1.0.tar.gz'', [],
         [''/home/user/sources/pkg/pkg-1.0.tar.gz''])"
proof -
  let ?os = "demo_os pkg_info sh_ok"
  let ?url = "''https://example.org/pkg-1.0.tar.gz''"
  have kept: "\<forall>w f w'. urlretrieve ?os w ?url f = (Inr (), w') \<longrightarrow> path_exists ?os w' f"
    by (auto simp: demo_os_def)
  have first: "fetch_source ?os ?url ''/home/user/sources/pkg'' []
      = (Inr ''/home/user/sources/pkg/pkg-1.0.tar.gz'',
         [Urlretrieve ?url ''/home/user/sources/pkg/pkg-1.0.tar.gz'',
          SetText ''Got it! Downloaded pkg-1.0.tar.gz''],
         [''/home/user/sources/pkg/pkg-1.0.tar.gz''])"
    by (simp add: fetch_source_def io_bind_def io_reraise_def io_return_def io_emit_def
          os_call_def Let_def demo_os_def join_def basename_def suffix_to_prefix)
  from fetch_source_idempotent [where dest_dir = "''/home/user/sources/pkg''" and w = "[]", OF kept]
  have "\<forall>p evs w1. fetch_source ?os ?url ''/home/user/sources/pkg'' [] = (Inr p, evs, w1) \<longrightarrow>
            fetch_source ?os ?url ''/home/user/sources/pkg'' w1 = (Inr p, [], w1)"
    by blast
  with first have "fetch_source ?os ?url ''/home/user/sources/pkg''
        [''/home/user/sources/pkg/pkg-1.0.tar.gz'']
      = (Inr ''/home/user/sources/pkg/pkg-1.0.tar.gz'', [],
         [''/home/user/sources/pkg/pkg-1.0.tar.gz''])"
    by blast
  with first show ?thesis by blast
qed

section \<open>Finding and loading the descriptor\<close>

lemma find_package_toml_silent:
  "find_package_toml os name w = (r, evs, w') \<Longrightarrow>
     evs = [] \<and> w' = w \<and> fst (find_package_toml os name w) = r"
  by (auto simp: find_package_toml_def split: list.splits elim!: io_reraiseE)

lemma find_package_toml_found:
  "fst (find_package_toml os name w) = Inr p \<Longrightarrow> find_package_toml os name w = (Inr p, [], w)"
  by (cases "find_package_toml os name w") (auto dest: find_package_toml_silent)

lemma load_package_info_eq:
  "load_package_info os p w =
     ((case toml_load os w p of
         Inl e \<Rightarrow> Inl (''Oops, couldn'' @ rsquo @ ''t load the TOML file: '' @ e)
       | Inr info \<Rightarrow> Inr info), [], w)"
  by (auto simp: load_package_info_def io_reraise_def io_return_def io_raise_def split: sum.splits)

lemma stages_load_failure:
  assumes "fst (find_package_toml os name w) = Inr p" and "toml_load os w p = Inr info"
    and "info_package info = None \<or> info_build info = None"
  shows "stages os name w =
     (Inl (if info_package info = None then [CHR 0x27] @ ''package'' @ [CHR 0x27]
           else [CHR 0x27] @ ''build'' @ [CHR 0x27]), [], w)"
  using assms find_package_toml_found [OF assms(1)]
  by (auto simp: stages_def load_descriptor_def io_bind_def load_package_info_eq getitem_def
        io_raise_def io_return_def)

text \<open>
  C10. When the descriptor that is found and parsed has no \<open>build\<close> table, the job
  consists of the one completion event, reporting failure with the text of the missing
  key: nothing is fetched and the system is left as it was.
\<close>

theorem run_without_build_table:
  assumes "fst (find_package_toml os name w) = Inr toml_path"
    and "toml_load os w toml_path = Inr info" and "info_build info = None"
  shows "\<exists>e. run os name w = ([Finished False (''Failed: '' @ e) e], w)
           \<and> (e = [CHR 0x27] @ ''package'' @ [CHR 0x27] \<or> e = [CHR 0x27] @ ''build'' @ [CHR 0x27])"
  using stages_load_failure [OF assms(1,2)] assms(3)
  by (auto simp: run_def io_bind_def)

lemma demo_find:
  "fst (find_package_toml (demo_os info sh) ''pkg'' w) = Inr ''/home/user/sources/pkg/pkg.toml''"
  by (simp add: find_package_toml_def demo_os_def io_reraise_def io_return_def join_def
        suffix_to_prefix lower_def lower_char_def sublist_code)

lemma demo_toml_load:
  "toml_load (demo_os info sh) w ''/home/user/sources/pkg/pkg.toml'' = Inr info"
  by (simp add: demo_os_def)

theorem run_without_build_table_witness:
  "run (demo_os unbuilt_info sh_ok) ''pkg'' []
     = ([Finished False (''Failed: '' @ [CHR 0x27] @ ''build'' @ [CHR 0x27])
           ([CHR 0x27] @ ''build'' @ [CHR 0x27])], [])"
proof -
  have "info_build unbuilt_info = None" and pk: "info_package unbuilt_info \<noteq> None"
    by (simp_all add: unbuilt_info_def)
  from run_without_build_table [OF demo_find demo_toml_load this(1)]
  obtain e where r: "run (demo_os unbuilt_info sh_ok) ''pkg'' [] = ([Finished False (''Failed: '' @ e) e], [])"
    by blast
  have "stages (demo_os unbuilt_info sh_ok) ''pkg'' [] = (Inl ([CHR 0x27] @ ''build'' @ [CHR 0x27]), [], [])"
    using stages_load_failure [OF demo_find demo_toml_load, of unbuilt_info sh_ok "[]"] pk
    by (simp add: unbuilt_info_def)
  then have "run (demo_os unbuilt_info sh_ok) ''pkg'' []
     = ([Finished False (''Failed: '' @ [CHR 0x27] @ ''build'' @ [CHR 0x27])
           ([CHR 0x27] @ ''build'' @ [CHR 0x27])], [])"
    by (simp add: run_def io_bind_def)
  with r show ?thesis by simp
qed

section \<open>The events of each operation\<close>

lemma fetch_source_cases:
  assumes "fetch_source os url d w = (r, evs, w')"
  shows "(r = Inr (join d (basename url)) \<and> evs = [] \<and> w' = w)
       \<or> (isl r \<and> evs = [Urlretrieve url (join d (basename url))])
       \<or> (r = Inr (join d (basename url))
           \<and> evs = [Urlretrieve url (join d (basename url)),
                     SetText (''Got it! Downloaded '' @ basename url)])"
  using assms
  by (auto simp: fetch_source_def Let_def split: if_splits elim!: io_reraiseE io_bindE)

lemma extract_tarball_events:
  "extract_tarball os t d w = (r, evs, w') \<Longrightarrow> evs = [Extractall t d]"
  by (auto simp: extract_tarball_def split: sum.splits list.splits elim!: io_reraiseE io_bindE)

lemma build_loop_Cons_cases:
  assumes "build_loop os d stage (cmd # cmds) w = (r, evs, w')"
  shows "(\<exists>outcome. failed outcome
            \<and> evs = [SetText (stage @ '': '' @ cmd), Run cmd d outcome]
            \<and> r = Inl (case outcome of Inl e \<Rightarrow> e
                    | Inr result \<Rightarrow> (case stderr_decode result of Inl e \<Rightarrow> e
                        | Inr error_msg \<Rightarrow> stage @ '' didn'' @ rsquo @ ''t work: '' @ error_msg)))
       \<or> (\<exists>result w1 evs'. returncode result = 0
            \<and> build_loop os d stage cmds w1 = (r, evs', w')
            \<and> evs = SetText (stage @ '': '' @ cmd) # Run cmd d (Inr result)
                   # SetText (stage @ '' done'') # evs')"
proof (cases "subprocess_run os w cmd d")
  case (Pair outcome w1)
  show ?thesis
  proof (cases "failed outcome")
    case True
    with Pair assms show ?thesis
      by (cases outcome) (auto simp: Let_def split: sum.splits)
  next
    case False
    then obtain result where "outcome = Inr result" and "returncode result = 0"
      by (cases outcome) auto
    with Pair assms show ?thesis
      by (cases "build_loop os d stage cmds w1") (auto simp: Let_def)
  qed
qed

lemma build_loop_ConsE:
  assumes "build_loop os d stage (cmd # cmds) w = (r, evs, w')"
  obtains (stopped) outcome where "failed outcome"
      and "evs = [SetText (stage @ '': '' @ cmd), Run cmd d outcome]"
      and "r = Inl (case outcome of Inl e \<Rightarrow> e
                    | Inr result \<Rightarrow> (case stderr_decode result of Inl e \<Rightarrow> e
                        | Inr error_msg \<Rightarrow> stage @ '' didn'' @ rsquo @ ''t work: '' @ error_msg))"
    | (continued) result w1 evs' where "returncode result = 0"
      and "build_loop os d stage cmds w1 = (r, evs', w')"
      and "evs = SetText (stage @ '': '' @ cmd) # Run cmd d (Inr result)
                   # SetText (stage @ '' done'') # evs'"
  using build_loop_Cons_cases [OF assms] by blast

lemma build_loop_progress:
  "build_loop os d stage cmds w = (r, evs, w') \<Longrightarrow> progress_values evs = []"
  by (induction cmds arbitrary: w r evs w') (auto elim!: build_loop_ConsE simp del: build_loop.simps(2))

lemma build_loop_deletions:
  "build_loop os d stage cmds w = (r, evs, w') \<Longrightarrow> deletions evs = []"
  by (induction cmds arbitrary: w r evs w') (auto elim!: build_loop_ConsE simp del: build_loop.simps(2))

lemma build_loop_no_fetch:
  "build_loop os d stage cmds w = (r, evs, w') \<Longrightarrow> Urlretrieve u f \<notin> set evs"
  by (induction cmds arbitrary: w r evs w') (auto elim!: build_loop_ConsE simp del: build_loop.simps(2))

lemma build_loop_cwd:
  "build_loop os d stage cmds w = (r, evs, w') \<Longrightarrow> Run c cwd out \<in> set evs \<Longrightarrow> cwd = d"
  by (induction cmds arbitrary: w r evs w') (auto elim!: build_loop_ConsE simp del: build_loop.simps(2))

lemma build_loop_commands:
  "build_loop os d stage cmds w = (r, evs, w') \<Longrightarrow>
     prefix (commands_run evs) cmds \<and> (\<not> isl r \<longrightarrow> commands_run evs = cmds)"
  by (induction cmds arbitrary: w r evs w') (auto elim!: build_loop_ConsE simp del: build_loop.simps(2))

lemma build_loop_raised:
  "build_loop os d stage cmds w = (r, evs, w') \<Longrightarrow> isl r \<Longrightarrow> evs \<noteq> [] \<and> failed_run (last evs)"
  by (induction cmds arbitrary: w r evs w') (auto elim!: build_loop_ConsE simp del: build_loop.simps(2))

lemma build_loop_returned:
  "build_loop os d stage cmds w = (r, evs, w') \<Longrightarrow> \<not> isl r \<Longrightarrow> ev \<in> set evs \<Longrightarrow> \<not> failed_run ev"
  by (induction cmds arbitrary: w r evs w') (auto elim!: build_loop_ConsE simp del: build_loop.simps(2))

lemma build_loop_failed_last:
  "build_loop os d stage cmds w = (r, evs, w') \<Longrightarrow> ev \<in> set (butlast evs) \<Longrightarrow> \<not> failed_run ev"
  by (induction cmds arbitrary: w r evs w') (auto elim!: build_loop_ConsE split: if_splits simp del: build_loop.simps(2))

lemma build_loop_text:
  "build_loop os d stage cmds w = (Inl e, evs, w') \<Longrightarrow>
     last evs = Run c cwd (Inr res) \<Longrightarrow> stderr_decode res = Inr txt \<Longrightarrow>
     e = stage @ '' didn'' @ rsquo @ ''t work: '' @ txt"
  by (induction cmds arbitrary: w e evs w') (auto elim!: build_loop_ConsE split: if_splits simp del: build_loop.simps(2))

lemma build_packageE:
  assumes "build_package os d cmds stage w = (r, evs, w')"
  obtains (raised) e where "build_loop os d stage cmds w = (Inl e, evs, w')"
      and "r = Inl (''Oh no, the build failed: '' @ e)"
    | (returned) "build_loop os d stage cmds w = (Inr (), evs, w')" and "r = Inr ()"
  using assms unfolding build_package_def by (auto elim!: io_reraiseE)


lemma build_package_progress:
  "build_package os d cmds stage w = (r, evs, w') \<Longrightarrow> progress_values evs = []"
  by (auto elim!: build_packageE dest: build_loop_progress)

lemma build_package_deletions:
  "build_package os d cmds stage w = (r, evs, w') \<Longrightarrow> deletions evs = []"
  by (auto elim!: build_packageE dest: build_loop_deletions)

lemma build_package_no_fetch:
  "build_package os d cmds stage w = (r, evs, w') \<Longrightarrow> Urlretrieve u f \<notin> set evs"
  by (auto elim!: build_packageE dest: build_loop_no_fetch)

lemma build_package_cwd:
  "build_package os d cmds stage w = (r, evs, w') \<Longrightarrow> Run c cwd out \<in> set evs \<Longrightarrow> cwd = d"
  by (auto elim!: build_packageE dest: build_loop_cwd)

lemma build_package_commands:
  "build_package os d cmds stage w = (r, evs, w') \<Longrightarrow>
     prefix (commands_run evs) cmds \<and> (\<not> isl r \<longrightarrow> commands_run evs = cmds)"
  by (auto elim!: build_packageE dest: build_loop_commands)

lemma build_package_raised:
  "build_package os d cmds stage w = (Inl e, evs, w') \<Longrightarrow> evs \<noteq> [] \<and> failed_run (last evs)"
  by (erule build_packageE) (auto dest: build_loop_raised)

lemma build_package_returned:
  "build_package os d cmds stage w = (Inr x, evs, w') \<Longrightarrow> ev \<in> set evs \<Longrightarrow> \<not> failed_run ev"
  by (erule build_packageE) (auto dest: build_loop_returned)

lemma build_package_failed_last:
  "build_package os d cmds stage w = (r, evs, w') \<Longrightarrow> ev \<in> set (butlast evs) \<Longrightarrow> \<not> failed_run ev"
  by (erule build_packageE) (auto dest: build_loop_failed_last)

lemma build_package_text:
  "build_package os d cmds stage w = (Inl e, evs, w') \<Longrightarrow>
     last evs = Run c cwd (Inr res) \<Longrightarrow> stderr_decode res = Inr txt \<Longrightarrow>
     e = build_error stage txt"
  by (erule build_packageE) (auto simp: build_error_def dest: build_loop_text)

lemma build_steps_progress:
  "build_steps os d b w = (r, evs, w') \<Longrightarrow>
     prefix (progress_values evs) (stage_milestones b)
     \<and> (\<not> isl r \<longrightarrow> progress_values evs = stage_milestones b)"
  by (auto simp: build_steps_def stage_milestones_def
           split: option.splits elim!: io_bindE dest!: build_package_progress)

lemma build_steps_commands:
  "build_steps os d b w = (r, evs, w') \<Longrightarrow>
     prefix (commands_run evs) (declared_commands b)
     \<and> (\<not> isl r \<longrightarrow> commands_run evs = declared_commands b)"
  by (auto simp: build_steps_def declared_commands_def
           split: option.splits elim!: io_bindE dest!: build_package_commands)

lemma build_steps_deletions:
  "build_steps os d b w = (r, evs, w') \<Longrightarrow> deletions evs = []"
  by (auto simp: build_steps_def
           split: option.splits elim!: io_bindE dest!: build_package_deletions)

lemma build_steps_no_fetch:
  "build_steps os d b w = (r, evs, w') \<Longrightarrow> Urlretrieve u f \<notin> set evs"
  by (auto simp: build_steps_def
           split: option.splits elim!: io_bindE dest: build_package_no_fetch)

lemma build_steps_cwd:
  "build_steps os d b w = (r, evs, w') \<Longrightarrow> Run c cwd out \<in> set evs \<Longrightarrow> cwd = d"
  by (auto simp: build_steps_def
           split: option.splits elim!: io_bindE dest: build_package_cwd)

lemma build_steps_returned:
  "build_steps os d b w = (Inr x, evs, w') \<Longrightarrow> ev \<in> set evs \<Longrightarrow> \<not> failed_run ev"
  by (auto simp: build_steps_def
           split: option.splits elim!: io_bindE dest: build_package_returned)

lemma build_steps_raised:
  "build_steps os d b w = (Inl e, evs, w') \<Longrightarrow> evs \<noteq> [] \<and> failed_run (last evs)"
  by (auto simp: build_steps_def
           split: option.splits elim!: io_bindE dest: build_package_raised)

lemma build_steps_failed_last:
  "build_steps os d b w = (r, evs, w') \<Longrightarrow> ev \<in> set (butlast evs) \<Longrightarrow> \<not> failed_run ev"
  by (auto simp: build_steps_def butlast_append
           split: option.splits if_splits elim!: io_bindE
           dest: build_package_returned build_package_failed_last)

lemma build_steps_text:
  "build_steps os d b w = (Inl e, evs, w') \<Longrightarrow>
     last evs = Run c cwd (Inr res) \<Longrightarrow> stderr_decode res = Inr txt \<Longrightarrow>
     e = build_error ''Configuring'' txt \<or> e = build_error ''Compiling'' txt
       \<or> e = build_error ''Installing'' txt"
  by (auto simp: build_steps_def
           split: option.splits if_splits elim!: io_bindE
           dest: build_package_raised build_package_text)

section \<open>The events of the blocks of a job\<close>

lemma load_descriptor_cases:
  assumes "load_descriptor os name w = (r, evs, w')"
  shows "evs = [] \<and> w' = w
     \<and> (\<forall>p pk b. r = Inr (p, pk, b) \<longrightarrow>
          (\<exists>info. fst (find_package_toml os name w) = Inr p \<and> toml_load os w p = Inr info
             \<and> info_package info = Some pk \<and> info_build info = Some b))"
  using assms unfolding load_descriptor_def
  by (auto simp: load_package_info_eq split: option.splits sum.splits elim!: io_bindE
           dest!: find_package_toml_silent)

lemma prepare_cases:
  assumes "prepare os p w = (r, evs, w')"
  shows "(isl r \<and> evs = [Message (''Loaded: '' @ basename p), Makedirs BUILD_DIR])
       \<or> (r = Inr () \<and> evs = [Message (''Loaded: '' @ basename p), Makedirs BUILD_DIR, Progress 10])"
  using assms unfolding prepare_def
  by (auto elim!: io_bindE)

lemma fetch_and_extract_cases:
  assumes "fetch_and_extract os p pk w = (r, evs, w')"
  shows "(isl r \<and> evs = [])
       \<or> (\<exists>u srcs fe. pkg_src pk = Some (u # srcs)
            \<and> (fe = [] \<or> fe = [Urlretrieve u (join (dirname p) (basename u))]
                \<or> fe = [Urlretrieve u (join (dirname p) (basename u)),
                         SetText (''Got it! Downloaded '' @ basename u)])
            \<and> ((isl r \<and> evs = fe)
                \<or> (isl r \<and> evs = fe @ [Progress 30, Extractall (join (dirname p) (basename u)) BUILD_DIR])
                \<or> (\<exists>sd. r = Inr (join (dirname p) (basename u), sd)
                      \<and> evs = fe @ [Progress 30, Extractall (join (dirname p) (basename u)) BUILD_DIR,
                                    Progress 50])))"
  using assms unfolding fetch_and_extract_def
  by (auto split: option.splits list.splits elim!: io_bindE
           dest!: fetch_source_cases extract_tarball_events)

lemma stages_loaded:
  "stages os name w = (r, evs, w') \<Longrightarrow> evs \<noteq> [] \<or> \<not> isl r \<Longrightarrow>
     \<exists>p info pk b. fst (find_package_toml os name w) = Inr p \<and> toml_load os w p = Inr info
        \<and> info_package info = Some pk \<and> info_build info = Some b"
  unfolding stages_def
  by (auto elim!: io_bindE dest!: load_descriptor_cases)

lemma stages_progress:
  "stages os name w = (r, evs, w') \<Longrightarrow>
   fst (find_package_toml os name w) = Inr p \<Longrightarrow> toml_load os w p = Inr info \<Longrightarrow>
   info_build info = Some b \<Longrightarrow>
     prefix (progress_values evs) ([10, 30, 50] @ stage_milestones b)
     \<and> (\<not> isl r \<longrightarrow> progress_values evs = [10, 30, 50] @ stage_milestones b)"
  unfolding stages_def
  by (auto elim!: io_bindE
           dest!: load_descriptor_cases prepare_cases fetch_and_extract_cases build_steps_progress)

lemma stages_commands:
  "stages os name w = (r, evs, w') \<Longrightarrow>
   fst (find_package_toml os name w) = Inr p \<Longrightarrow> toml_load os w p = Inr info \<Longrightarrow>
   info_build info = Some b \<Longrightarrow>
     prefix (commands_run evs) (declared_commands b)
     \<and> (\<not> isl r \<longrightarrow> commands_run evs = declared_commands b)"
  unfolding stages_def
  by (auto elim!: io_bindE
           dest!: load_descriptor_cases prepare_cases fetch_and_extract_cases build_steps_commands)

lemma stages_deletions:
  "stages os name w = (r, evs, w') \<Longrightarrow> deletions evs = []"
  unfolding stages_def
  by (auto elim!: io_bindE
           dest!: load_descriptor_cases prepare_cases fetch_and_extract_cases build_steps_deletions)

section \<open>The whole job\<close>

lemma cleanup_cases:
  assumes "cleanup os sd tb w = (r, evs, w')"
  shows "(isl r \<and> (evs = [Rmtree sd] \<or> evs = [Rmtree sd, Remove tb]))
       \<or> (r = Inr () \<and> evs = [Rmtree sd, Remove tb, Progress 100])"
  using assms unfolding cleanup_def by (auto elim!: io_bindE)

lemma run_cases:
  obtains (failed_stage) e evs w' where "stages os name w = (Inl e, evs, w')"
      and "run os name w = (evs @ [Finished False (''Failed: '' @ e) e], w')"
    | (failed_cleanup) sd tb evs w1 e dels w' where "stages os name w = (Inr (sd, tb), evs, w1)"
      and "dels = [Rmtree sd] \<or> dels = [Rmtree sd, Remove tb]"
      and "run os name w = (evs @ dels @ [Finished False (''Failed: '' @ e) e], w')"
    | (succeeded) sd tb evs w1 w' where "stages os name w = (Inr (sd, tb), evs, w1)"
      and "run os name w
           = (evs @ [Rmtree sd, Remove tb, Progress 100,
                     Finished True ([CHR 0x27] @ name @ [CHR 0x27] @ '' installed'') []], w')"
proof (cases "stages os name w")
  case (fields r evs w1)
  show thesis
  proof (cases r)
    case (Inl e)
    with fields have "run os name w = (evs @ [Finished False (''Failed: '' @ e) e], w1)"
      by (simp add: run_def io_bind_def)
    with fields Inl show thesis by (auto intro: failed_stage)
  next
    case (Inr res)
    obtain sd tb where res: "res = (sd, tb)" by (cases res)
    obtain rc ec wc where c: "cleanup os sd tb w1 = (rc, ec, wc)" by (cases "cleanup os sd tb w1")
    from cleanup_cases [OF c] consider
        (bad) "isl rc" and "ec = [Rmtree sd] \<or> ec = [Rmtree sd, Remove tb]"
      | (good) "rc = Inr ()" and "ec = [Rmtree sd, Remove tb, Progress 100]"
      by blast
    then show thesis
    proof cases
      case bad
      then obtain e where "rc = Inl e" by (cases rc) auto
      with fields Inr res c
      have "run os name w = (evs @ ec @ [Finished False (''Failed: '' @ e) e], wc)"
        by (simp add: run_def io_bind_def)
      with fields Inr res bad(2) show thesis by (auto intro: failed_cleanup)
    next
      case good
      with fields Inr res c
      have "run os name w
           = (evs @ [Rmtree sd, Remove tb, Progress 100,
                     Finished True ([CHR 0x27] @ name @ [CHR 0x27] @ '' installed'') []], wc)"
        by (simp add: run_def io_bind_def)
      with fields Inr res show thesis by (auto intro: succeeded)
    qed
  qed
qed

lemma milestones_sorted:
  "sorted (milestones b) \<and> distinct (milestones b)
   \<and> set (milestones b) \<subseteq> {10, 30, 50, 60, 80, 90, 100}"
  by (simp add: milestones_def stage_milestones_def)

lemma prefix_sorted: "prefix xs ys \<Longrightarrow> sorted ys \<Longrightarrow> sorted xs"
  by (auto simp: prefix_def sorted_append)

lemma prefix_set: "prefix xs ys \<Longrightarrow> set xs \<subseteq> set ys"
  by (auto simp: prefix_def)

lemma run_progress:
  assumes "fst (find_package_toml os name w) = Inr p" and "toml_load os w p = Inr info"
    and "info_build info = Some b"
  shows "prefix (progress_values (fst (run os name w))) (milestones b)
     \<and> (100 \<in> set (progress_values (fst (run os name w)))
          \<longleftrightarrow> (\<exists>msg. last (fst (run os name w)) = Finished True msg []))"
proof (cases rule: run_cases [of os name w])
  case (failed_stage e evs w')
  from stages_progress [OF failed_stage(1) assms]
  have "prefix (progress_values evs) ([10, 30, 50] @ stage_milestones b)" by simp
  then have p: "prefix (progress_values evs) (milestones b)"
    unfolding milestones_def by (metis append.assoc prefix_order.trans prefixI)
  then have "100 \<notin> set (progress_values evs)"
    using \<open>prefix (progress_values evs) ([10, 30, 50] @ stage_milestones b)\<close>
    by (auto dest!: prefix_set simp: stage_milestones_def split: if_splits)
  with p failed_stage(2) show ?thesis by simp
next
  case (failed_cleanup sd tb evs w1 e dels w')
  from stages_progress [OF failed_cleanup(1) assms]
  have eq: "progress_values evs = [10, 30, 50] @ stage_milestones b" by simp
  then have "100 \<notin> set (progress_values evs)"
    by (auto simp: stage_milestones_def split: if_splits)
  moreover have "progress_values dels = []" using failed_cleanup(2) by auto
  ultimately show ?thesis using eq failed_cleanup(3) by (simp add: milestones_def)
next
  case (succeeded sd tb evs w1 w')
  from stages_progress [OF succeeded(1) assms]
  have eq: "progress_values evs = [10, 30, 50] @ stage_milestones b" by simp
  with succeeded(2) show ?thesis by (simp add: milestones_def)
qed

lemma run_progress_unloaded:
  assumes "\<not> (\<exists>p info b. fst (find_package_toml os name w) = Inr p \<and> toml_load os w p = Inr info
             \<and> info_build info = Some b)"
  shows "progress_values (fst (run os name w)) = []
         \<and> (\<exists>msg detail. last (fst (run os name w)) = Finished False msg detail)"
proof (cases rule: run_cases [of os name w])
  case (failed_stage e evs w')
  with assms stages_loaded [OF failed_stage(1)] have "evs = []" by blast
  with failed_stage(2) show ?thesis by simp
next
  case (failed_cleanup sd tb evs w1 e dels w')
  with assms stages_loaded [OF failed_cleanup(1)] show ?thesis by auto
next
  case (succeeded sd tb evs w1 w')
  with assms stages_loaded [OF succeeded(1)] show ?thesis by auto
qed

text \<open>
  C2. For every job, the values sent through the \<open>progress\<close> signal are non-decreasing
  and are among 10, 30, 50, 60, 80, 90 and 100; 100 is sent exactly when the job ends with
  the completion event reporting success; and for the descriptor the job loaded, the
  values are an initial part of the milestones of that descriptor, in which 60, 80 and 90
  stand for the declared steps only, so that a skipped step changes no other value.
\<close>

theorem progress_is_monotonic:
  "sorted (progress_values (fst (run os name w)))
   \<and> set (progress_values (fst (run os name w))) \<subseteq> {10, 30, 50, 60, 80, 90, 100}
   \<and> (100 \<in> set (progress_values (fst (run os name w)))
        \<longleftrightarrow> (\<exists>msg. last (fst (run os name w)) = Finished True msg []))
   \<and> (\<forall>p info b. fst (find_package_toml os name w) = Inr p \<and> toml_load os w p = Inr info
          \<and> info_build info = Some b \<longrightarrow>
          prefix (progress_values (fst (run os name w))) (milestones b)
          \<and> (60 \<in> set (progress_values (fst (run os name w))) \<longrightarrow> b ''configure'' \<noteq> None)
          \<and> (80 \<in> set (progress_values (fst (run os name w))) \<longrightarrow> b ''compile'' \<noteq> None)
          \<and> (90 \<in> set (progress_values (fst (run os name w))) \<longrightarrow> b ''install'' \<noteq> None))"
proof (cases "\<exists>p info b. fst (find_package_toml os name w) = Inr p \<and> toml_load os w p = Inr info
             \<and> info_build info = Some b")
  case True
  then obtain p info b where l: "fst (find_package_toml os name w) = Inr p"
    "toml_load os w p = Inr info" "info_build info = Some b" by blast
  note rp = run_progress [OF l]
  from rp have pre: "prefix (progress_values (fst (run os name w))) (milestones b)" by simp
  have decl: "(60 \<in> set (milestones b) \<longrightarrow> b ''configure'' \<noteq> None)
      \<and> (80 \<in> set (milestones b) \<longrightarrow> b ''compile'' \<noteq> None)
      \<and> (90 \<in> set (milestones b) \<longrightarrow> b ''install'' \<noteq> None)"
    by (simp add: milestones_def stage_milestones_def)
  from pre milestones_sorted [of b] have "sorted (progress_values (fst (run os name w)))"
    by (blast intro: prefix_sorted)
  moreover from pre milestones_sorted [of b]
  have "set (progress_values (fst (run os name w))) \<subseteq> {10, 30, 50, 60, 80, 90, 100}"
    by (blast dest: prefix_set)
  moreover have "\<forall>p' info' b'. fst (find_package_toml os name w) = Inr p'
          \<and> toml_load os w p' = Inr info' \<and> info_build info' = Some b' \<longrightarrow> b' = b"
    using l by auto
  ultimately show ?thesis using rp pre decl prefix_set [OF pre] by blast
next
  case False
  from run_progress_unloaded [OF False] False show ?thesis by auto
qed

lemmas eval_defs = run_def stages_def load_descriptor_def prepare_def fetch_and_extract_def
  build_steps_def cleanup_def build_package_def fetch_source_def extract_tarball_def
  find_package_toml_def load_package_info_def install_cmd_def
  io_bind_def io_return_def io_raise_def io_emit_def io_reraise_def os_call_def
  getitem_def getitem0_def Let_def
  demo_os_def sh_ok_def BUILD_DIR_def SOURCES_BASE_DIR_def
  join_def basename_def dirname_def rstrip_slash_def lower_def lower_char_def
  suffix_to_prefix sublist_code

lemma demo_run:
  "run (demo_os pkg_info sh_ok) ''pkg'' [] =
    ([Message ''Loaded: pkg.toml'', Makedirs ''/home/user/sources/build'', Progress 10,
      Urlretrieve ''https://example.org/pkg-1.0.tar.gz'' ''/home/user/sources/pkg/pkg-1.0.tar.gz'',
      SetText ''Got it! Downloaded pkg-1.0.tar.gz'', Progress 30,
      Extractall ''/home/user/sources/pkg/pkg-1.0.tar.gz'' ''/home/user/sources/build'',
      Progress 50, Message ''Compiling...'', SetText ''Compiling: make'',
      Run ''make'' ''/home/user/sources/build/pkg-1.0''
        (Inr \<lparr>returncode = 0, stderr_decode = Inr []\<rparr>),
      SetText ''Compiling done'', Progress 80, Message ''Installing...'',
      SetText ''Installing: make install'',
      Run ''make install'' ''/home/user/sources/build/pkg-1.0''
        (Inr \<lparr>returncode = 0, stderr_decode = Inr []\<rparr>),
      SetText ''Installing done'', Progress 90,
      Rmtree ''/home/user/sources/build/pkg-1.0'',
      Remove ''/home/user/sources/pkg/pkg-1.0.tar.gz'', Progress 100,
      Finished True ([CHR 0x27] @ ''pkg'' @ [CHR 0x27] @ '' installed'') []],
     [''/home/user/sources/build''])"
  by (simp add: eval_defs pkg_info_def)

theorem progress_is_monotonic_witness:
  "progress_values (fst (run (demo_os pkg_info sh_ok) ''pkg'' [])) = [10, 30, 50, 80, 90, 100]
   \<and> last (fst (run (demo_os pkg_info sh_ok) ''pkg'' []))
       = Finished True ([CHR 0x27] @ ''pkg'' @ [CHR 0x27] @ '' installed'') []
   \<and> milestones [''compile'' \<mapsto> [''make''], ''install'' \<mapsto> [''make install'']]
       = [10, 30, 50, 80, 90, 100]"
  using progress_is_monotonic [of "demo_os pkg_info sh_ok" "''pkg''" "[]"]
  by (simp add: demo_run milestones_def stage_milestones_def)

section \<open>Where the job puts its files, and what a failure leaves\<close>

lemma build_loop_events:
  "build_loop os d stage cmds w = (r, evs, w') \<Longrightarrow> ev \<in> set evs \<Longrightarrow> build_event d ev"
  by (induction cmds arbitrary: w r evs w')
     (auto elim!: build_loop_ConsE simp del: build_loop.simps(2))

lemma build_package_events:
  "build_package os d cmds stage w = (r, evs, w') \<Longrightarrow> ev \<in> set evs \<Longrightarrow> build_event d ev"
  by (auto elim!: build_packageE dest: build_loop_events)

lemma build_steps_events:
  "build_steps os d b w = (r, evs, w') \<Longrightarrow> ev \<in> set evs \<Longrightarrow> build_event d ev"
  by (auto simp: build_steps_def
           split: option.splits elim!: io_bindE dest: build_package_events)

lemma build_steps_shell_only:
  assumes "build_steps os d b w = (r, evs, w')"
  shows "(\<forall>u f. Urlretrieve u f \<notin> set evs) \<and> (\<forall>t x. Extractall t x \<notin> set evs)
       \<and> (\<forall>c cwd out. Run c cwd out \<in> set evs \<longrightarrow> cwd = d)"
  using build_steps_events [OF assms] by fastforce

lemma stages_fetch_target:
  "stages os name w = (r, evs, w') \<Longrightarrow> Urlretrieve u f \<in> set evs \<Longrightarrow>
     \<exists>p info pk srcs. fst (find_package_toml os name w) = Inr p \<and> toml_load os w p = Inr info
        \<and> info_package info = Some pk \<and> pkg_src pk = Some (u # srcs)
        \<and> f = join (dirname p) (basename u)"
  unfolding stages_def
  by (auto elim!: io_bindE
           dest!: load_descriptor_cases prepare_cases fetch_and_extract_cases
                  build_steps_shell_only)

lemma stages_extract_target:
  "stages os name w = (r, evs, w') \<Longrightarrow> Extractall t d \<in> set evs \<Longrightarrow>
     \<exists>p info pk u srcs. fst (find_package_toml os name w) = Inr p \<and> toml_load os w p = Inr info
        \<and> info_package info = Some pk \<and> pkg_src pk = Some (u # srcs)
        \<and> t = join (dirname p) (basename u) \<and> d = BUILD_DIR"
  unfolding stages_def
  by (auto elim!: io_bindE
           dest!: load_descriptor_cases prepare_cases fetch_and_extract_cases
                  build_steps_shell_only)

lemma stages_result:
  "stages os name w = (Inr (src_dir, tarball), evs, w') \<Longrightarrow>
     Extractall tarball BUILD_DIR \<in> set evs
     \<and> (\<forall>c cwd out. Run c cwd out \<in> set evs \<longrightarrow> cwd = src_dir)"
  unfolding stages_def
  apply (auto elim!: io_bindE
           dest!: load_descriptor_cases prepare_cases fetch_and_extract_cases
                  build_steps_shell_only)
    apply blast+
  done

lemma stages_returned:
  "stages os name w = (Inr x, evs, w') \<Longrightarrow> ev \<in> set evs \<Longrightarrow> \<not> failed_run ev"
  unfolding stages_def
  by (auto elim!: io_bindE
           dest!: load_descriptor_cases prepare_cases fetch_and_extract_cases
           dest: build_steps_returned)

lemma stages_failed_last:
  "stages os name w = (r, evs, w') \<Longrightarrow> ev \<in> set (butlast evs) \<Longrightarrow> \<not> failed_run ev"
  unfolding stages_def
  by (auto simp: butlast_append split: if_splits elim!: io_bindE
           dest!: load_descriptor_cases prepare_cases fetch_and_extract_cases
           dest: build_steps_failed_last)

lemma stages_text:
  "stages os name w = (Inl e, evs, w') \<Longrightarrow> evs \<noteq> [] \<Longrightarrow>
     last evs = Run c cwd (Inr res) \<Longrightarrow> stderr_decode res = Inr txt \<Longrightarrow>
     e = build_error ''Configuring'' txt \<or> e = build_error ''Compiling'' txt
       \<or> e = build_error ''Installing'' txt"
  unfolding stages_def
  by (auto split: if_splits elim!: io_bindE
           dest!: load_descriptor_cases prepare_cases fetch_and_extract_cases
           dest: build_steps_text build_steps_raised)

text \<open>
  C3. The program removes something only after every block of the job has returned: when a
  block raises (loading, fetching, extracting or a build step), the job is the events so
  far followed by the completion event reporting failure, with no removal among them;
  and when the job's events contain a removal, the blocks all returned without a failed
  command, the removals come after all their events, and they are the removal of the
  extracted source directory (where the commands ran) and then of the downloaded file
  (the one that was unpacked), all declared commands having run.
\<close>

theorem cleanup_only_on_success:
  "(\<forall>e evs w1. stages os name w = (Inl e, evs, w1) \<longrightarrow>
       run os name w = (evs @ [Finished False (''Failed: '' @ e) e], w1)
       \<and> deletions (fst (run os name w)) = [])
   \<and> (deletions (fst (run os name w)) \<noteq> [] \<longrightarrow>
       (\<exists>sd tb evs w1 rest. stages os name w = (Inr (sd, tb), evs, w1)
          \<and> fst (run os name w) = evs @ Rmtree sd # rest
          \<and> deletions evs = [] \<and> (\<forall>ev \<in> set evs. \<not> failed_run ev)
          \<and> prefix (deletions (fst (run os name w))) [Rmtree sd, Remove tb]
          \<and> Extractall tb BUILD_DIR \<in> set evs
          \<and> (\<forall>c cwd out. Run c cwd out \<in> set evs \<longrightarrow> cwd = sd)
          \<and> (\<forall>p info b. fst (find_package_toml os name w) = Inr p \<and> toml_load os w p = Inr info
                \<and> info_build info = Some b \<longrightarrow>
                commands_run evs = declared_commands b
                \<and> progress_values evs = [10, 30, 50] @ stage_milestones b)))"
proof (cases rule: run_cases [of os name w])
  case (failed_stage e evs w')
  then show ?thesis by (simp add: stages_deletions)
next
  case (failed_cleanup sd tb evs w1 e dels w')
  note st = failed_cleanup(1)
  have "\<forall>p info b. fst (find_package_toml os name w) = Inr p \<and> toml_load os w p = Inr info
                \<and> info_build info = Some b \<longrightarrow>
                commands_run evs = declared_commands b
                \<and> progress_values evs = [10, 30, 50] @ stage_milestones b"
    using stages_commands [OF st] stages_progress [OF st] by auto
  moreover have "\<forall>ev \<in> set evs. \<not> failed_run ev" using stages_returned [OF st] by blast
  moreover have "\<exists>rest. fst (run os name w) = evs @ Rmtree sd # rest"
    using failed_cleanup(2,3) by auto
  moreover have "prefix (deletions (fst (run os name w))) [Rmtree sd, Remove tb]"
    using failed_cleanup(2,3) stages_deletions [OF st] by auto
  ultimately show ?thesis
    using st stages_deletions [OF st] stages_result [OF st] by auto
next
  case (succeeded sd tb evs w1 w')
  note st = succeeded(1)
  have "\<forall>p info b. fst (find_package_toml os name w) = Inr p \<and> toml_load os w p = Inr info
                \<and> info_build info = Some b \<longrightarrow>
                commands_run evs = declared_commands b
                \<and> progress_values evs = [10, 30, 50] @ stage_milestones b"
    using stages_commands [OF st] stages_progress [OF st] by auto
  moreover have "\<forall>ev \<in> set evs. \<not> failed_run ev" using stages_returned [OF st] by blast
  moreover have "\<exists>rest. fst (run os name w) = evs @ Rmtree sd # rest"
    using succeeded(2) by auto
  moreover have "prefix (deletions (fst (run os name w))) [Rmtree sd, Remove tb]"
    using succeeded(2) stages_deletions [OF st] by auto
  ultimately show ?thesis
    using st stages_deletions [OF st] stages_result [OF st] by auto
qed

lemma demo_run_boom_deletions:
  "deletions (fst (run (demo_os pkg_info sh_boom) ''pkg'' [])) = []"
  by (simp add: eval_defs pkg_info_def sh_boom_def)

theorem cleanup_only_on_success_witness:
  "deletions (fst (run (demo_os pkg_info sh_ok) ''pkg'' []))
     = [Rmtree ''/home/user/sources/build/pkg-1.0'',
        Remove ''/home/user/sources/pkg/pkg-1.0.tar.gz'']
   \<and> deletions (fst (run (demo_os pkg_info sh_boom) ''pkg'' [])) = []"
  using cleanup_only_on_success [of "demo_os pkg_info sh_ok" "''pkg''" "[]"]
  by (simp add: demo_run demo_run_boom_deletions)

section \<open>Where the download goes\<close>

lemma find_package_toml_in_walk:
  assumes "fst (find_package_toml os name w) = Inr p"
  shows "\<exists>root files fname. (root, files) \<in> set (walk os w SOURCES_BASE_DIR) \<and> fname \<in> set files
           \<and> suffix ''.toml'' fname \<and> sublist (lower name) (lower fname) \<and> p = join root fname"
proof -
  define hits where "hits = [join root fname. (root, files) \<leftarrow> walk os w SOURCES_BASE_DIR,
      fname \<leftarrow> files, suffix ''.toml'' fname \<and> sublist (lower name) (lower fname)]"
  from assms have "\<exists>rest. hits = p # rest"
    unfolding hits_def find_package_toml_def
    by (simp add: io_reraise_def io_return_def io_raise_def split: list.splits)
  then have "p \<in> set hits" by auto
  then show ?thesis unfolding hits_def by auto
qed

lemma dirname_join:
  assumes "root \<noteq> []" and "\<not> suffix ''/'' root" and "CHR ''/'' \<notin> set fname"
  shows "dirname (join root fname) = root"
proof -
  from assms(3) have nf: "\<not> prefix ''/'' fname" by (cases fname) auto
  with assms have j: "join root fname = root @ ''/'' @ fname" by (simp add: join_def)
  from assms(3) have all: "\<forall>c \<in> set (rev fname). c \<noteq> CHR ''/''" by auto
  have dw: "dropWhile (\<lambda>c. c \<noteq> CHR ''/'') (rev fname @ ''/'' @ rev root) = ''/'' @ rev root"
    using all by (simp add: dropWhile_append)
  obtain c cs where rr: "rev root = c # cs" using assms(1) by (cases "rev root") auto
  then have root: "root = rev cs @ [c]" by (metis rev.simps(2) rev_rev_ident)
  with assms(2) have c: "c \<noteq> CHR ''/''" by (auto simp: suffix_def)
  have head: "rev (dropWhile (\<lambda>c. c \<noteq> CHR ''/'') (rev (root @ ''/'' @ fname))) = root @ ''/''"
    using dw by simp
  have not_all: "root @ ''/'' \<noteq> replicate (length (root @ ''/'')) CHR ''/''"
  proof
    assume "root @ ''/'' = replicate (length (root @ ''/'')) CHR ''/''"
    then have "set (root @ ''/'') \<subseteq> {CHR ''/''}"
      by (metis set_replicate_conv_if empty_subsetI subset_refl)
    with root c show False by auto
  qed
  have strip: "rstrip_slash (root @ ''/'') = root"
    using rr c by (simp add: rstrip_slash_def root)
  show ?thesis
    unfolding j dirname_def Let_def head using not_all strip by simp
qed


text \<open>
  C6, as stated, fails on the end-to-end scenario: the file is downloaded to
  \<open>/home/user/sources/pkg/pkg-1.0.tar.gz\<close>, beside the descriptor and inside the tree of
  descriptors, not to \<open>BUILD_DIR/pkg-1.0.tar.gz\<close>.
\<close>

theorem download_into_build_root_counterexample:
  "Urlretrieve ''https://example.org/pkg-1.0.tar.gz'' ''/home/user/sources/pkg/pkg-1.0.tar.gz''
     \<in> set (fst (run (demo_os pkg_info sh_ok) ''pkg'' []))
   \<and> Urlretrieve ''https://example.org/pkg-1.0.tar.gz'' (BUILD_DIR @ ''/pkg-1.0.tar.gz'')
     \<notin> set (fst (run (demo_os pkg_info sh_ok) ''pkg'' []))
   \<and> \<not> prefix BUILD_DIR ''/home/user/sources/pkg/pkg-1.0.tar.gz''
   \<and> prefix SOURCES_BASE_DIR ''/home/user/sources/pkg/pkg-1.0.tar.gz''"
  by (simp add: demo_run BUILD_DIR_def SOURCES_BASE_DIR_def)

text \<open>
  C6, amended. For every job, each download the job makes is of the first source URL of
  the descriptor it loaded, into the directory part of the descriptor's path, under the
  URL's base name; that descriptor is a file of the walk of \<open>SOURCES_BASE_DIR\<close>, and
  for a walk entry whose directory is not empty and does not end in a slash the directory
  part is that directory. What is unpacked is that file, and it is unpacked into
  \<open>BUILD_DIR\<close>.
\<close>

theorem download_beside_descriptor:
  "(\<forall>u f. Urlretrieve u f \<in> set (fst (run os name w)) \<longrightarrow>
      (\<exists>root files fname info pk srcs.
          (root, files) \<in> set (walk os w SOURCES_BASE_DIR) \<and> fname \<in> set files
          \<and> fst (find_package_toml os name w) = Inr (join root fname)
          \<and> toml_load os w (join root fname) = Inr info
          \<and> info_package info = Some pk \<and> pkg_src pk = Some (u # srcs)
          \<and> f = join (dirname (join root fname)) (basename u)
          \<and> (root \<noteq> [] \<and> \<not> suffix ''/'' root \<and> CHR ''/'' \<notin> set fname
               \<longrightarrow> f = join root (basename u))))
   \<and> (\<forall>t d. Extractall t d \<in> set (fst (run os name w)) \<longrightarrow>
      d = BUILD_DIR
      \<and> (\<exists>p info pk u srcs. fst (find_package_toml os name w) = Inr p
            \<and> toml_load os w p = Inr info \<and> info_package info = Some pk
            \<and> pkg_src pk = Some (u # srcs) \<and> t = join (dirname p) (basename u)))"
proof -
  obtain r evs w1 where st: "stages os name w = (r, evs, w1)"
    by (cases "stages os name w")
  have same: "(Urlretrieve u f \<in> set (fst (run os name w)) \<longleftrightarrow> Urlretrieve u f \<in> set evs)
      \<and> (Extractall t d \<in> set (fst (run os name w)) \<longleftrightarrow> Extractall t d \<in> set evs)" for u f t d
    using st by (cases rule: run_cases [of os name w]) auto
  have "\<exists>root files fname info pk srcs.
          (root, files) \<in> set (walk os w SOURCES_BASE_DIR) \<and> fname \<in> set files
          \<and> fst (find_package_toml os name w) = Inr (join root fname)
          \<and> toml_load os w (join root fname) = Inr info
          \<and> info_package info = Some pk \<and> pkg_src pk = Some (u # srcs)
          \<and> f = join (dirname (join root fname)) (basename u)
          \<and> (root \<noteq> [] \<and> \<not> suffix ''/'' root \<and> CHR ''/'' \<notin> set fname
               \<longrightarrow> f = join root (basename u))"
    if "Urlretrieve u f \<in> set evs" for u f
  proof -
    from stages_fetch_target [OF st that] obtain p info pk srcs where
      p: "fst (find_package_toml os name w) = Inr p" "toml_load os w p = Inr info"
        "info_package info = Some pk" "pkg_src pk = Some (u # srcs)"
        "f = join (dirname p) (basename u)"
      by blast
    from find_package_toml_in_walk [OF p(1)] obtain root files fname where
      q: "(root, files) \<in> set (walk os w SOURCES_BASE_DIR)" "fname \<in> set files"
        "p = join root fname"
      by blast
    show ?thesis
      using p q
      by (intro exI [of _ root] exI [of _ files] exI [of _ fname] exI [of _ info]
            exI [of _ pk] exI [of _ srcs])
         (simp add: dirname_join)
  qed
  moreover have "d = BUILD_DIR
      \<and> (\<exists>p info pk u srcs. fst (find_package_toml os name w) = Inr p
            \<and> toml_load os w p = Inr info \<and> info_package info = Some pk
            \<and> pkg_src pk = Some (u # srcs) \<and> t = join (dirname p) (basename u))"
    if "Extractall t d \<in> set evs" for t d
    using stages_extract_target [OF st that] by blast
  ultimately show ?thesis using same by blast
qed

theorem download_beside_descriptor_witness:
  "Urlretrieve ''https://example.org/pkg-1.0.tar.gz'' ''/home/user/sources/pkg/pkg-1.0.tar.gz''
     \<in> set (fst (run (demo_os pkg_info sh_ok) ''pkg'' []))
   \<and> Extractall ''/home/user/sources/pkg/pkg-1.0.tar.gz'' ''/home/user/sources/build''
     \<in> set (fst (run (demo_os pkg_info sh_ok) ''pkg'' []))
   \<and> join ''/home/user/sources/pkg'' (basename ''https://example.org/pkg-1.0.tar.gz'')
     = ''/home/user/sources/pkg/pkg-1.0.tar.gz''"
  using download_beside_descriptor [of "demo_os pkg_info sh_ok" "''pkg''" "[]"]
  by (simp add: demo_run join_def basename_def suffix_to_prefix)

section \<open>Which commands reach the shell\<close>

lemma demo_run_sudo_commands:
  "commands_run (fst (run (demo_os sudo_info sh_ok) ''pkg'' []))
     = [''sudo ./configure'', ''pkexec sudo make install'', ''ldconfig'']"
  by (simp add: eval_defs sudo_info_def)

text \<open>
  C7, as stated, fails for the configure and compile steps: the configure command
  \<open>sudo ./configure\<close> contains the marker and reaches the shell as it is.
\<close>

theorem sudo_rewrite_every_stage_counterexample:
  "commands_run (fst (run (demo_os sudo_info sh_ok) ''pkg'' []))
     = [''sudo ./configure'', ''pkexec sudo make install'', ''ldconfig'']
   \<and> info_build sudo_info = Some [''configure'' \<mapsto> [''sudo ./configure''],
         ''install'' \<mapsto> [''sudo make install'', ''ldconfig'']]
   \<and> sublist ''sudo'' ''sudo ./configure''
   \<and> \<not> sublist ''pkexec'' ''sudo ./configure''"
proof -
  have "info_build sudo_info = Some [''configure'' \<mapsto> [''sudo ./configure''],
         ''install'' \<mapsto> [''sudo make install'', ''ldconfig'']]"
    by (simp add: sudo_info_def)
  moreover have "sublist ''sudo'' ''sudo ./configure'' \<and> \<not> sublist ''pkexec'' ''sudo ./configure''"
    by (simp add: sublist_code)
  ultimately show ?thesis using demo_run_sudo_commands by blast
qed

text \<open>
  C7, amended. For every job and the build table of the descriptor it loaded, the
  commands that reach the shell are, in order, an initial part of: the configure commands
  as declared, the compile commands as declared, and the install commands where each
  command containing \<open>sudo\<close> is prefixed with \<open>pkexec \<close> and every other is unchanged;
  all of them when the job ends in success.
\<close>

theorem sudo_rewrite_install_only:
  "(\<forall>p info b. fst (find_package_toml os name w) = Inr p \<and> toml_load os w p = Inr info
        \<and> info_build info = Some b \<longrightarrow>
        prefix (commands_run (fst (run os name w))) (declared_commands b)
        \<and> ((\<exists>msg. last (fst (run os name w)) = Finished True msg []) \<longrightarrow>
             commands_run (fst (run os name w)) = declared_commands b))
   \<and> declared_commands b
       = (case b ''configure'' of None \<Rightarrow> [] | Some cmds \<Rightarrow> cmds)
         @ (case b ''compile'' of None \<Rightarrow> [] | Some cmds \<Rightarrow> cmds)
         @ (case b ''install'' of None \<Rightarrow> [] | Some cmds \<Rightarrow> install_cmd cmds)
   \<and> length (install_cmd cmds) = length cmds
   \<and> (\<forall>i < length cmds. install_cmd cmds ! i
         = (if sublist ''sudo'' (cmds ! i) then ''pkexec '' @ cmds ! i else cmds ! i))"
proof -
  have "prefix (commands_run (fst (run os name w))) (declared_commands b)
        \<and> ((\<exists>msg. last (fst (run os name w)) = Finished True msg []) \<longrightarrow>
             commands_run (fst (run os name w)) = declared_commands b)"
    if l: "fst (find_package_toml os name w) = Inr p" "toml_load os w p = Inr info"
      "info_build info = Some b" for p info b
  proof (cases rule: run_cases [of os name w])
    case (failed_stage e evs w')
    with stages_commands [OF failed_stage(1) l] show ?thesis by simp
  next
    case (failed_cleanup sd tb evs w1 e dels w')
    then have "commands_run dels = []" by auto
    with failed_cleanup stages_commands [OF failed_cleanup(1) l] show ?thesis by simp
  next
    case (succeeded sd tb evs w1 w')
    with stages_commands [OF succeeded(1) l] show ?thesis by simp
  qed
  then show ?thesis by (simp add: declared_commands_def install_cmd_def)
qed

theorem sudo_rewrite_install_only_witness:
  "commands_run (fst (run (demo_os sudo_info sh_ok) ''pkg'' []))
     = [''sudo ./configure'', ''pkexec sudo make install'', ''ldconfig'']
   \<and> declared_commands [''configure'' \<mapsto> [''sudo ./configure''],
         ''install'' \<mapsto> [''sudo make install'', ''ldconfig'']]
     = [''sudo ./configure'', ''pkexec sudo make install'', ''ldconfig'']
   \<and> install_cmd [''sudo make install'', ''ldconfig''] ! 0 = ''pkexec sudo make install''"
  using sudo_rewrite_install_only [of "demo_os sudo_info sh_ok" "''pkg''" "[]"
      "[''configure'' \<mapsto> [''sudo ./configure''],
         ''install'' \<mapsto> [''sudo make install'', ''ldconfig'']]"
      "[''sudo make install'', ''ldconfig'']"]
  by (simp add: demo_run_sudo_commands declared_commands_def install_cmd_def sublist_code)

section \<open>What a failing command leaves\<close>

lemma in_butlast: "evs = pre @ x # post \<Longrightarrow> post \<noteq> [] \<Longrightarrow> x \<in> set (butlast evs)"
  by (simp add: butlast_append)

lemma snoc_eq_decomp:
  assumes "evs @ [x] = pre @ y # post" and "x \<noteq> y"
  obtains post' where "post = post' @ [x]" and "evs = pre @ y # post'"
proof (cases post rule: rev_cases)
  case Nil
  with assms show ?thesis by simp
next
  case (snoc post' z)
  with assms(1) have "evs @ [x] = (pre @ y # post') @ [z]" by simp
  then have "evs = pre @ y # post'" and "x = z" by (simp_all only: append1_eq_conv)
  with snoc that show ?thesis by blast
qed

lemma run_failed_stage_decomp:
  assumes st: "stages os name w = (Inl e, evs, w')"
    and eq: "evs @ [Finished False (''Failed: '' @ e) e] = pre @ Run c cwd out # post"
    and f: "failed out"
  shows "post = [Finished False (''Failed: '' @ e) e] \<and> evs \<noteq> [] \<and> last evs = Run c cwd out"
proof -
  from eq obtain post' where post: "post = post' @ [Finished False (''Failed: '' @ e) e]"
      and evs: "evs = pre @ Run c cwd out # post'"
    by (rule snoc_eq_decomp) simp
  have "post' = []"
  proof (rule ccontr)
    assume "post' \<noteq> []"
    with evs have "Run c cwd out \<in> set (butlast evs)" by (rule in_butlast)
    from stages_failed_last [OF st this] f show False by simp
  qed
  with post evs show ?thesis by simp
qed


lemma build_package_failure_shape:
  assumes bp: "build_package os d cmds stage w = (r, evs, w')"
  shows "(isl r \<longleftrightarrow> (\<exists>ev \<in> set evs. failed_run ev))
       \<and> prefix (commands_run evs) cmds \<and> (\<not> isl r \<longrightarrow> commands_run evs = cmds)
       \<and> (\<forall>pre c cwd out post. evs = pre @ Run c cwd out # post \<and> failed out \<longrightarrow>
             post = []
             \<and> (\<forall>res txt. out = Inr res \<and> stderr_decode res = Inr txt \<longrightarrow>
                   r = Inl (build_error stage txt)))"
  proof -
    have iff: "isl r \<longleftrightarrow> (\<exists>ev \<in> set evs. failed_run ev)"
    proof (cases r)
      case (Inl e)
      with bp build_package_raised [of os d cmds stage w e evs w'] show ?thesis
        by (auto intro: bexI [of _ "last evs"])
    next
      case (Inr x)
      with bp build_package_returned [of os d cmds stage w x evs w'] show ?thesis by auto
    qed
    have "post = []
        \<and> (\<forall>res txt. out = Inr res \<and> stderr_decode res = Inr txt \<longrightarrow>
              r = Inl (build_error stage txt))"
      if dec: "evs = pre @ Run c cwd out # post" "failed out" for pre c cwd out post
    proof -
      have post: "post = []"
      proof (rule ccontr)
        assume "post \<noteq> []"
        with dec have "Run c cwd out \<in> set (butlast evs)" by (simp add: in_butlast)
        with build_package_failed_last [OF bp] dec show False by fastforce
      qed
      from dec iff obtain e where e: "r = Inl e" by (cases r) auto
      have "r = Inl (build_error stage errtext)"
        if out: "out = Inr res" "stderr_decode res = Inr errtext" for res errtext
      proof -
        from dec post out have "last evs = Run c cwd (Inr res)" by simp
        with bp e out build_package_text [of os d cmds stage w e evs w' c cwd res errtext]
        show ?thesis by simp
      qed
      with post show ?thesis by blast
    qed
    then have dec: "\<forall>pre c cwd out post. evs = pre @ Run c cwd out # post \<and> failed out \<longrightarrow>
             post = []
             \<and> (\<forall>res txt. out = Inr res \<and> stderr_decode res = Inr txt \<longrightarrow>
                   r = Inl (build_error stage txt))"
      by blast
    from build_package_commands [OF bp]
    have cmds: "prefix (commands_run evs) cmds" "\<not> isl r \<longrightarrow> commands_run evs = cmds"
      by simp_all
    from iff cmds dec show ?thesis by (intro conjI)
  qed


lemma run_failure_shape:
  assumes dec: "fst (run os name w) = pre @ Run c cwd out # post" and f: "failed out"
  shows "\<exists>e. post = [Finished False (''Failed: '' @ e) e]
            \<and> (\<forall>res txt. out = Inr res \<and> stderr_decode res = Inr txt \<longrightarrow>
                  e = build_error ''Configuring'' txt \<or> e = build_error ''Compiling'' txt
                  \<or> e = build_error ''Installing'' txt)"
  proof (cases rule: run_cases [of os name w])
    case (failed_stage e evs w')
    from failed_stage(2) dec
    have "evs @ [Finished False (''Failed: '' @ e) e] = pre @ Run c cwd out # post"
      by (simp only: fst_conv)
    from run_failed_stage_decomp [OF failed_stage(1) this f]
    have post: "post = [Finished False (''Failed: '' @ e) e]"
      and l: "evs \<noteq> []" "last evs = Run c cwd out"
      by blast+
    have "e = build_error ''Configuring'' errtext \<or> e = build_error ''Compiling'' errtext
                  \<or> e = build_error ''Installing'' errtext"
      if "out = Inr res \<and> stderr_decode res = Inr errtext" for res errtext
    proof -
      from that l(2) have "last evs = Run c cwd (Inr res)" and "stderr_decode res = Inr errtext"
        by blast+
      from stages_text [OF failed_stage(1) l(1) this] show ?thesis .
    qed
    with post show ?thesis by blast
  next
    case (failed_cleanup sd tb evs w1 e dels w')
    from dec have "Run c cwd out \<in> set (fst (run os name w))" by simp
    with failed_cleanup(3) have "Run c cwd out \<in> set (evs @ dels)" by simp
    with failed_cleanup(2) have "Run c cwd out \<in> set evs" by auto
    from stages_returned [OF failed_cleanup(1) this] f show ?thesis by simp
  next
    case (succeeded sd tb evs w1 w')
    from dec have "Run c cwd out \<in> set (fst (run os name w))" by simp
    with succeeded(2) have "Run c cwd out \<in> set evs" by simp
    from stages_returned [OF succeeded(1) this] f show ?thesis by simp
  qed


text \<open>
  C1, as stated, fails twice. When \<open>make\<close> exits with status 1 and \<open>boom\<close> on standard
  error, the text of the error is \<open>Oh no, the build failed: Compiling didn't work: boom\<close>,
  not \<open>boom\<close>. And when the shell cannot be started, \<open>build_package\<close> fails although no
  command has exited with a non-zero status.
\<close>

theorem build_failure_text_counterexample:
  "build_package (demo_os pkg_info sh_boom) ''/src'' [''make'', ''make check''] ''Compiling'' []
     = (Inl (''Oh no, the build failed: Compiling didn'' @ rsquo @ ''t work: boom''),
        [SetText ''Compiling: make'',
         Run ''make'' ''/src'' (Inr \<lparr>returncode = 1, stderr_decode = Inr ''boom''\<rparr>)], [])
   \<and> ''Oh no, the build failed: Compiling didn'' @ rsquo @ ''t work: boom'' \<noteq> ''boom''
   \<and> build_package (demo_os pkg_info sh_missing) ''/src'' [''make'', ''make check''] ''Compiling'' []
     = (Inl ''Oh no, the build failed: [Errno 2] No such file or directory'',
        [SetText ''Compiling: make'',
         Run ''make'' ''/src'' (Inl ''[Errno 2] No such file or directory'')], [])"
  by (simp add: build_package_def io_reraise_def demo_os_def sh_boom_def sh_missing_def
        sh_ok_def Let_def)

text \<open>
  C1, amended. \<open>build_package\<close> fails if and only if one of the shell calls it made
  failed, that is, could not be made or came back with a non-zero exit status. The
  commands it runs are an initial part of the list, in order, and the whole list when it
  returns. A failed call is the last event of \<open>build_package\<close>; when it is a non-zero exit
  whose standard error decodes to \<open>txt\<close>, the error's text is \<open>Oh no, the build failed: \<close>,
  the stage name, \<open> didn't work: \<close> and then \<open>txt\<close>. In a job, a failed call is followed by
  the completion event reporting failure and by nothing else, so no later command of
  that step or of a later step runs, and the detail of that event is the text above for one
  of the three stage names.
\<close>

theorem build_package_stops_at_first_failure:
  "(\<forall>r evs w'. build_package os d cmds stage w = (r, evs, w') \<longrightarrow>
       (isl r \<longleftrightarrow> (\<exists>ev \<in> set evs. failed_run ev))
       \<and> prefix (commands_run evs) cmds \<and> (\<not> isl r \<longrightarrow> commands_run evs = cmds)
       \<and> (\<forall>pre c cwd out post. evs = pre @ Run c cwd out # post \<and> failed out \<longrightarrow>
             post = []
             \<and> (\<forall>res txt. out = Inr res \<and> stderr_decode res = Inr txt \<longrightarrow>
                   r = Inl (build_error stage txt))))
   \<and> (\<forall>pre c cwd out post. fst (run os name w) = pre @ Run c cwd out # post \<and> failed out \<longrightarrow>
         (\<exists>e. post = [Finished False (''Failed: '' @ e) e]
            \<and> (\<forall>res txt. out = Inr res \<and> stderr_decode res = Inr txt \<longrightarrow>
                  e = build_error ''Configuring'' txt \<or> e = build_error ''Compiling'' txt
                  \<or> e = build_error ''Installing'' txt)))"
proof (rule conjI)
  show "\<forall>r evs w'. build_package os d cmds stage w = (r, evs, w') \<longrightarrow>
       (isl r \<longleftrightarrow> (\<exists>ev \<in> set evs. failed_run ev))
       \<and> prefix (commands_run evs) cmds \<and> (\<not> isl r \<longrightarrow> commands_run evs = cmds)
       \<and> (\<forall>pre c cwd out post. evs = pre @ Run c cwd out # post \<and> failed out \<longrightarrow>
             post = []
             \<and> (\<forall>res txt. out = Inr res \<and> stderr_decode res = Inr txt \<longrightarrow>
                   r = Inl (build_error stage txt)))"
    by (intro allI impI) (rule build_package_failure_shape)
next
  show "\<forall>pre c cwd out post. fst (run os name w) = pre @ Run c cwd out # post \<and> failed out \<longrightarrow>
         (\<exists>e. post = [Finished False (''Failed: '' @ e) e]
            \<and> (\<forall>res txt. out = Inr res \<and> stderr_decode res = Inr txt \<longrightarrow>
                  e = build_error ''Configuring'' txt \<or> e = build_error ''Compiling'' txt
                  \<or> e = build_error ''Installing'' txt))"
  proof (intro allI impI)
    fix pre c cwd out post
    assume "fst (run os name w) = pre @ Run c cwd out # post \<and> failed out"
    then have "fst (run os name w) = pre @ Run c cwd out # post" and "failed out" by blast+
    then show "\<exists>e. post = [Finished False (''Failed: '' @ e) e]
            \<and> (\<forall>res txt. out = Inr res \<and> stderr_decode res = Inr txt \<longrightarrow>
                  e = build_error ''Configuring'' txt \<or> e = build_error ''Compiling'' txt
                  \<or> e = build_error ''Installing'' txt)"
      by (rule run_failure_shape)
  qed
qed

theorem build_package_stops_at_first_failure_witness:
  "fst (build_package (demo_os pkg_info sh_boom) ''/src'' [''make'', ''make check'']
          ''Compiling'' [])
     = Inl (build_error ''Compiling'' ''boom'')
   \<and> commands_run (fst (snd (build_package (demo_os pkg_info sh_boom) ''/src''
          [''make'', ''make check''] ''Compiling'' []))) = [''make'']"
proof -
  let ?res = "\<lparr>returncode = 1, stderr_decode = Inr ''boom''\<rparr>"
  let ?e = "''Oh no, the build failed: Compiling didn'' @ rsquo @ ''t work: boom''"
  have ev: "build_package (demo_os pkg_info sh_boom) ''/src'' [''make'', ''make check'']
      ''Compiling'' []
     = (Inl ?e, [SetText ''Compiling: make''] @ Run ''make'' ''/src'' (Inr ?res) # [], [])"
    by (simp add: build_package_def io_reraise_def demo_os_def sh_boom_def Let_def)
  have f: "failed (Inr ?res)" and d: "stderr_decode ?res = Inr ''boom''" by simp_all
  note claim = build_package_stops_at_first_failure
    [where os = "demo_os pkg_info sh_boom" and d = "''/src''"
       and cmds = "[''make'', ''make check'']" and stage = "''Compiling''" and w = "[]"
       and name = "''pkg''"]
  from claim [THEN conjunct1, THEN spec, THEN spec, THEN spec, THEN mp, OF ev]
  have "\<forall>pre c cwd out post.
      [SetText ''Compiling: make''] @ Run ''make'' ''/src'' (Inr ?res) # []
        = pre @ Run c cwd out # post \<and> failed out \<longrightarrow>
      post = []
      \<and> (\<forall>res txt. out = Inr res \<and> stderr_decode res = Inr txt \<longrightarrow>
            (Inl ?e :: string + unit) = Inl (build_error ''Compiling'' txt))"
    by (elim conjE)
  then have "(Inl ?e :: string + unit) = Inl (build_error ''Compiling'' ''boom'')"
    using f d by blast
  with ev show ?thesis by simp
qed

section \<open>What loading checks\<close>

text \<open>
  C8, as stated, fails: a descriptor file whose \<open>package\<close> table has neither \<open>name\<close> nor
  \<open>src\<close> is parsed and returned by \<open>load_package_info\<close> as it is.
\<close>

theorem load_package_info_unvalidated_counterexample:
  "load_package_info (demo_os nameless_info sh_ok) ''/home/user/sources/pkg/pkg.toml'' []
     = (Inr nameless_info, [], [])
   \<and> info_package nameless_info = Some \<lparr>pkg_name = None, pkg_src = None\<rparr>"
  by (simp add: load_package_info_eq demo_os_def nameless_info_def)

text \<open>
  C8, amended. \<open>load_package_info\<close> fails exactly when the file cannot be opened or
  parsed, with the text of that failure after \<open>Oops, couldn't load the TOML file: \<close>;
  otherwise it returns the parsed content as it is, whether or not \<open>name\<close> and \<open>src\<close> are
  there. A descriptor without the \<open>package\<close> table, without \<open>src\<close> or with an empty \<open>src\<close>
  list is detected by the job only: it ends with the completion event reporting failure
  and downloads nothing.
\<close>

theorem load_package_info_parse_only:
  "(\<forall>e. toml_load os w p = Inl e \<longrightarrow>
       load_package_info os p w
         = (Inl (''Oops, couldn'' @ rsquo @ ''t load the TOML file: '' @ e), [], w))
   \<and> (\<forall>info. toml_load os w p = Inr info \<longrightarrow> load_package_info os p w = (Inr info, [], w))
   \<and> (\<forall>tp info. fst (find_package_toml os name w) = Inr tp \<and> toml_load os w tp = Inr info
          \<and> (info_package info = None
               \<or> (\<exists>pk. info_package info = Some pk
                     \<and> (pkg_src pk = None \<or> pkg_src pk = Some []))) \<longrightarrow>
          (\<exists>msg detail. last (fst (run os name w)) = Finished False msg detail)
          \<and> (\<forall>u f. Urlretrieve u f \<notin> set (fst (run os name w))))"
proof -
  have a: "\<forall>e. toml_load os w p = Inl e \<longrightarrow>
       load_package_info os p w
         = (Inl (''Oops, couldn'' @ rsquo @ ''t load the TOML file: '' @ e), [], w)"
    by (simp add: load_package_info_eq)
  have b: "\<forall>info. toml_load os w p = Inr info \<longrightarrow> load_package_info os p w = (Inr info, [], w)"
    by (simp add: load_package_info_eq)
  have c: "(\<exists>msg detail. last (fst (run os name w)) = Finished False msg detail)
          \<and> (\<forall>u f. Urlretrieve u f \<notin> set (fst (run os name w)))"
    if h: "fst (find_package_toml os name w) = Inr tp" "toml_load os w tp = Inr info"
      "info_package info = None
         \<or> (\<exists>pk. info_package info = Some pk \<and> (pkg_src pk = None \<or> pkg_src pk = Some []))"
    for tp info
  proof -
    have nofetch: "Urlretrieve u f \<notin> set evs"
      if "stages os name w = (r, evs, w1)" for r evs w1 u f
    proof
      assume "Urlretrieve u f \<in> set evs"
      from stages_fetch_target [OF that this] h show False by auto
    qed
    have raised: "isl r" if st: "stages os name w = (r, evs, w1)" for r evs w1
    proof (rule ccontr)
      assume "\<not> isl r"
      then obtain sd tb where "r = Inr (sd, tb)" by (cases r) auto
      with st stages_result [of os name w sd tb evs w1]
      have "Extractall tb BUILD_DIR \<in> set evs" by simp
      from stages_extract_target [OF st this] h show False by auto
    qed
    show ?thesis
    proof (cases rule: run_cases [of os name w])
      case (failed_stage e evs w')
      with nofetch [OF failed_stage(1)] show ?thesis by simp
    next
      case (failed_cleanup sd tb evs w1 e dels w')
      with raised [OF failed_cleanup(1)] show ?thesis by simp
    next
      case (succeeded sd tb evs w1 w')
      with raised [OF succeeded(1)] show ?thesis by simp
    qed
  qed
  then have c': "\<forall>tp info. fst (find_package_toml os name w) = Inr tp \<and> toml_load os w tp = Inr info
          \<and> (info_package info = None
               \<or> (\<exists>pk. info_package info = Some pk
                     \<and> (pkg_src pk = None \<or> pkg_src pk = Some []))) \<longrightarrow>
          (\<exists>msg detail. last (fst (run os name w)) = Finished False msg detail)
          \<and> (\<forall>u f. Urlretrieve u f \<notin> set (fst (run os name w)))"
    by blast
  from a b c' show ?thesis by (intro conjI)
qed

lemma demo_run_nameless:
  "fst (run (demo_os nameless_info sh_ok) ''pkg'' [])
     = [Message ''Loaded: pkg.toml'', Makedirs ''/home/user/sources/build'', Progress 10,
        Finished False (''Failed: '' @ [CHR 0x27] @ ''src'' @ [CHR 0x27])
          ([CHR 0x27] @ ''src'' @ [CHR 0x27])]"
  by (simp add: eval_defs nameless_info_def)

theorem load_package_info_parse_only_witness:
  "load_package_info (demo_os nameless_info sh_ok) ''/home/user/sources/pkg/pkg.toml'' []
     = (Inr nameless_info, [], [])
   \<and> last (fst (run (demo_os nameless_info sh_ok) ''pkg'' []))
     = Finished False (''Failed: '' @ [CHR 0x27] @ ''src'' @ [CHR 0x27])
          ([CHR 0x27] @ ''src'' @ [CHR 0x27])"
  using load_package_info_parse_only
    [where os = "demo_os nameless_info sh_ok" and w = "[]"
       and p = "''/home/user/sources/pkg/pkg.toml''" and name = "''pkg''"]
  by (simp add: demo_toml_load demo_run_nameless)

section \<open>What the search lists\<close>







end
